theory Spec2Isabelle
  imports Complex_Main
begin

section \<open>Conventions of the embedding\<close>

text \<open>
  The JavaScript sources compute with IEEE doubles. Where only the value of a computation
  matters (the lookups, the formatters, the pace and speed conversions) a finite number is
  a \<open>real\<close> (and a whole-valued one an \<open>int\<close>), so arithmetic is exact there; a value that may
  be \<open>NaN\<close>, \<open>null\<close> or \<open>undefined\<close> is an \<open>option\<close> or a constructor of its own wherever the
  source tests for it. Where the rounding of a sum decides how often a loop runs (the split
  tables) numbers are doubles, with every operation rounded: see the next section. Strings
  are ASCII \<open>char list\<close>s. The builtins whose result depends on the binary representation of a
  double (\<open>parseFloat\<close>, \<open>Number.prototype.toFixed\<close>, the conversion of a number to a string)
  are parameters, collected in the records \<open>host\<close> and \<open>doubleHost\<close>; the two loader singletons
  of the web application (\<open>scoringDataLoader\<close>, \<open>eventConfigLoader\<close>), whose modules the
  calculators only import, are parameters too, collected in the record \<open>loaders\<close>.
\<close>

record host =
  parseFloat :: "string \<Rightarrow> real option"
  toFixed :: "real option \<Rightarrow> nat \<Rightarrow> string"
  numberToString :: "real option \<Rightarrow> string"

type_synonym entry = "int \<times> string"

record loaders =
  findCategory :: "string \<Rightarrow> string \<Rightarrow> string option"
  getEventData :: "string \<Rightarrow> string \<Rightarrow> string \<Rightarrow> entry list option"
  getHandTimingOffset :: "string \<Rightarrow> real option"

section \<open>Double-precision arithmetic\<close>

text \<open>
  A double is a finite number, given by the real number it denotes, an infinity or \<open>NaN\<close>.
  Zero has no sign here: a quotient by zero takes the sign of the dividend.
\<close>

datatype double = Finite real | PlusInfinity | MinusInfinity | NotANumber

definition pow2 :: "int \<Rightarrow> real" where
  "pow2 k = (if 0 \<le> k then 2 ^ nat k else 1 / 2 ^ nat (- k))"

text \<open>
  The binary exponent of a positive number, kept within the exponents of the format: not
  below -1022, where the subnormal numbers begin, and not above 1024, where every number
  overflows.
\<close>

function exponentUp :: "real \<Rightarrow> int \<Rightarrow> int" where
  "exponentUp x k = (if 2 \<le> x \<and> k < 1024 then exponentUp (x / 2) (k + 1) else k)"
  by pat_completeness auto
termination
  by (relation "measure (\<lambda>(x, k). nat (1024 - k))") auto

function exponentDown :: "real \<Rightarrow> int \<Rightarrow> int" where
  "exponentDown x k = (if x < 1 \<and> - 1022 < k then exponentDown (x * 2) (k - 1) else k)"
  by pat_completeness auto
termination
  by (relation "measure (\<lambda>(x, k). nat (k + 1022))") auto

declare exponentUp.simps [simp del] exponentDown.simps [simp del]

definition clampedExponent :: "real \<Rightarrow> int" where
  "clampedExponent x = (if 1 \<le> x then exponentUp x 0 else exponentDown x 0)"

definition roundHalfEven :: "real \<Rightarrow> int" where
  "roundHalfEven y =
     (let f = \<lfloor>y\<rfloor>; r = y - of_int f
      in if r < 1 / 2 then f else if 1 / 2 < r then f + 1 else if even f then f else f + 1)"

text \<open>
  Rounding to the nearest double, ties to even: the number is rounded to a whole multiple
  of \<open>2 ^ (e - 52)\<close> for its exponent \<open>e\<close>, and a result of magnitude \<open>2 ^ 1024\<close> or more is an
  infinity.
\<close>

definition round64 :: "real \<Rightarrow> double" where
  "round64 x =
     (if x = 0 then Finite 0
      else
        (let quantum = pow2 (clampedExponent \<bar>x\<bar> - 52);
             r = of_int (roundHalfEven (x / quantum)) * quantum
         in if pow2 1024 \<le> \<bar>r\<bar> then (if 0 < x then PlusInfinity else MinusInfinity)
            else Finite r))"

fun fadd :: "double \<Rightarrow> double \<Rightarrow> double" where
  "fadd (Finite x) (Finite y) = round64 (x + y)"
| "fadd NotANumber b = NotANumber"
| "fadd a NotANumber = NotANumber"
| "fadd PlusInfinity MinusInfinity = NotANumber"
| "fadd MinusInfinity PlusInfinity = NotANumber"
| "fadd PlusInfinity b = PlusInfinity"
| "fadd a PlusInfinity = PlusInfinity"
| "fadd MinusInfinity b = MinusInfinity"
| "fadd a MinusInfinity = MinusInfinity"

fun fneg :: "double \<Rightarrow> double" where
  "fneg (Finite x) = Finite (- x)"
| "fneg PlusInfinity = MinusInfinity"
| "fneg MinusInfinity = PlusInfinity"
| "fneg NotANumber = NotANumber"

definition fsub :: "double \<Rightarrow> double \<Rightarrow> double" where
  "fsub a b = fadd a (fneg b)"

fun fmul :: "double \<Rightarrow> double \<Rightarrow> double" where
  "fmul (Finite x) (Finite y) = round64 (x * y)"
| "fmul NotANumber b = NotANumber"
| "fmul a NotANumber = NotANumber"
| "fmul (Finite x) b =
     (if x = 0 then NotANumber
      else if (0 < x) = (b = PlusInfinity) then PlusInfinity else MinusInfinity)"
| "fmul a (Finite y) =
     (if y = 0 then NotANumber
      else if (0 < y) = (a = PlusInfinity) then PlusInfinity else MinusInfinity)"
| "fmul a b = (if a = b then PlusInfinity else MinusInfinity)"

fun fdiv :: "double \<Rightarrow> double \<Rightarrow> double" where
  "fdiv (Finite x) (Finite y) =
     (if y = 0
      then (if x = 0 then NotANumber else if 0 < x then PlusInfinity else MinusInfinity)
      else round64 (x / y))"
| "fdiv NotANumber b = NotANumber"
| "fdiv a NotANumber = NotANumber"
| "fdiv (Finite x) b = Finite 0"
| "fdiv a (Finite y) =
     (if (0 \<le> y) = (a = PlusInfinity) then PlusInfinity else MinusInfinity)"
| "fdiv a b = NotANumber"

text \<open>\<open>a < b\<close> and \<open>a >= b\<close>, false when an operand is \<open>NaN\<close>; \<open>Math.floor\<close>.\<close>

fun dless :: "double \<Rightarrow> double \<Rightarrow> bool" where
  "dless (Finite x) (Finite y) = (x < y)"
| "dless NotANumber b = False"
| "dless a NotANumber = False"
| "dless a MinusInfinity = False"
| "dless PlusInfinity b = False"
| "dless MinusInfinity b = True"
| "dless a PlusInfinity = True"

definition dgeq :: "double \<Rightarrow> double \<Rightarrow> bool" where
  "dgeq a b = (a \<noteq> NotANumber \<and> b \<noteq> NotANumber \<and> \<not> dless a b)"

fun dfloor :: "double \<Rightarrow> double" where
  "dfloor (Finite x) = Finite (of_int \<lfloor>x\<rfloor>)"
| "dfloor a = a"

text \<open>The builtins that print and read a double.\<close>

record doubleHost =
  toFixed64 :: "double \<Rightarrow> nat \<Rightarrow> string"
  parseFloat64 :: "string \<Rightarrow> double"
  toString64 :: "double \<Rightarrow> string"

section \<open>Performance lookup calculator\<close>

subsection \<open>\<open>isFieldEvent\<close>\<close>

definition toUpperChar :: "char \<Rightarrow> char" where
  "toUpperChar c =
     (case map_of (zip ''abcdefghijklmnopqrstuvwxyz'' ''ABCDEFGHIJKLMNOPQRSTUVWXYZ'') c of
        Some u \<Rightarrow> u
      | None \<Rightarrow> c)"

definition toUpperCase :: "string \<Rightarrow> string" where
  "toUpperCase s = map toUpperChar s"

fun startsWith :: "string \<Rightarrow> string \<Rightarrow> bool" where
  "startsWith s [] = True"
| "startsWith [] (c # cs) = False"
| "startsWith (d # ds) (c # cs) = (d = c \<and> startsWith ds cs)"

fun includesStr :: "string \<Rightarrow> string \<Rightarrow> bool" where
  "includesStr [] sub = (sub = [])"
| "includesStr (c # cs) sub = (startsWith (c # cs) sub \<or> includesStr cs sub)"

definition distanceEvents :: "string list" where
  "distanceEvents = [''LJ'', ''TJ'', ''SP'', ''DT'', ''HT'', ''JT'', ''PV'', ''HJ'']"

definition isFieldEvent :: "string \<Rightarrow> bool" where
  "isFieldEvent event = list_ex (\<lambda>code. includesStr (toUpperCase event) code) distanceEvents"

subsection \<open>\<open>lookupPoints\<close>\<close>

record pointsResult =
  res_points :: int
  res_exactMatch :: bool
  res_closestPerformance :: string
  res_appliedOffset :: "real option"
  res_originalPerformance :: "real option"

text \<open>
  The first loop of \<open>lookupPoints\<close>. \<open>Inl\<close> is the early return at an entry within 0.005 of
  the performance, \<open>Inr\<close> the value of \<open>lowerPointsEntry\<close> when the loop runs to its end. An
  entry whose performance parses to \<open>NaN\<close> fails every comparison and is skipped.
\<close>

fun scanLower :: "(string \<Rightarrow> real option) \<Rightarrow> bool \<Rightarrow> real \<Rightarrow> entry list \<Rightarrow> entry option
    \<Rightarrow> entry + entry option" where
  "scanLower pf isDistanceEvent perfNum [] lowerPointsEntry = Inr lowerPointsEntry"
| "scanLower pf isDistanceEvent perfNum ((pts, perf) # rest) lowerPointsEntry =
     (case pf perf of
        None \<Rightarrow> scanLower pf isDistanceEvent perfNum rest lowerPointsEntry
      | Some perfValue \<Rightarrow>
          if \<bar>perfValue - perfNum\<bar> < 5 / 1000 then Inl (pts, perf)
          else if isDistanceEvent then
            (if perfNum > perfValue then
               (case lowerPointsEntry of
                  None \<Rightarrow> scanLower pf isDistanceEvent perfNum rest (Some (pts, perf))
                | Some l \<Rightarrow>
                    if pts > fst l
                    then scanLower pf isDistanceEvent perfNum rest (Some (pts, perf))
                    else scanLower pf isDistanceEvent perfNum rest lowerPointsEntry)
             else scanLower pf isDistanceEvent perfNum rest lowerPointsEntry)
          else
            (if perfNum < perfValue then
               (case lowerPointsEntry of
                  None \<Rightarrow> scanLower pf isDistanceEvent perfNum rest (Some (pts, perf))
                | Some l \<Rightarrow>
                    if pts > fst l
                    then scanLower pf isDistanceEvent perfNum rest (Some (pts, perf))
                    else scanLower pf isDistanceEvent perfNum rest lowerPointsEntry)
             else scanLower pf isDistanceEvent perfNum rest lowerPointsEntry))"

text \<open>The fallback loop shared by both lookups: the first entry with the lowest points.\<close>

fun scanLowest :: "entry list \<Rightarrow> entry option \<Rightarrow> entry option" where
  "scanLowest [] lowestEntry = lowestEntry"
| "scanLowest ((pts, perf) # rest) lowestEntry =
     (case lowestEntry of
        None \<Rightarrow> scanLowest rest (Some (pts, perf))
      | Some l \<Rightarrow> if pts < fst l then scanLowest rest (Some (pts, perf))
                  else scanLowest rest lowestEntry)"

definition lookupPoints :: "host \<Rightarrow> loaders \<Rightarrow> string \<Rightarrow> string \<Rightarrow> string \<Rightarrow> bool
    \<Rightarrow> pointsResult option" where
  "lookupPoints h ld gender event performance isHandTimed =
     (case findCategory ld gender event of
        None \<Rightarrow> None
      | Some category \<Rightarrow>
          if category = [] then None
          else
            (case getEventData ld gender category event of
               None \<Rightarrow> None
             | Some eventData \<Rightarrow>
                 if eventData = [] then None
                 else
                   let (perfNumO, appliedOffset, originalPerformance) =
                         (if isHandTimed then
                            (case getHandTimingOffset ld event of
                               None \<Rightarrow> (parseFloat h performance, None, None)
                             | Some offset \<Rightarrow>
                                 if offset \<noteq> 0
                                 then (map_option (\<lambda>p. p + offset) (parseFloat h performance),
                                       Some offset, parseFloat h performance)
                                 else (parseFloat h performance, None, None))
                          else (parseFloat h performance, None, None))
                   in
                     (case perfNumO of
                        None \<Rightarrow> None
                      | Some perfNum \<Rightarrow>
                          (case scanLower (parseFloat h) (isFieldEvent event) perfNum
                                  eventData None of
                             Inl (pts, perf) \<Rightarrow>
                               Some \<lparr> res_points = pts, res_exactMatch = True,
                                      res_closestPerformance = perf,
                                      res_appliedOffset = appliedOffset,
                                      res_originalPerformance = originalPerformance \<rparr>
                           | Inr lowerPointsEntry \<Rightarrow>
                               (case (case lowerPointsEntry of
                                        None \<Rightarrow> scanLowest eventData None
                                      | Some l \<Rightarrow> Some l) of
                                  None \<Rightarrow> None
                                | Some (pts, perf) \<Rightarrow>
                                    Some \<lparr> res_points = pts, res_exactMatch = False,
                                           res_closestPerformance = perf,
                                           res_appliedOffset = appliedOffset,
                                           res_originalPerformance = originalPerformance \<rparr>)))))"

subsection \<open>\<open>lookupPerformance\<close>\<close>

record performanceResult =
  rev_performance :: string
  rev_exactMatch :: bool
  rev_points :: int
  rev_appliedOffset :: "real option"
  rev_originalPerformance :: "string option"

text \<open>\<open>Math.round\<close> on a finite number: the nearest integer, a tie going up.\<close>

definition Math_round :: "real \<Rightarrow> int" where
  "Math_round x = \<lfloor>x + 1 / 2\<rfloor>"

text \<open>
  The first loop of \<open>lookupPerformance\<close>; the result is the pair
  \<open>(exactMatchEntry, lowerPointsEntry)\<close> and the \<open>break\<close> is the first branch.
\<close>

fun scanExact :: "int \<Rightarrow> entry list \<Rightarrow> entry option \<Rightarrow> entry option \<times> entry option" where
  "scanExact targetPoints [] lowerPointsEntry = (None, lowerPointsEntry)"
| "scanExact targetPoints ((entryPoints, perf) # rest) lowerPointsEntry =
     (if entryPoints = targetPoints then (Some (entryPoints, perf), lowerPointsEntry)
      else if entryPoints < targetPoints then
        (case lowerPointsEntry of
           None \<Rightarrow> scanExact targetPoints rest (Some (entryPoints, perf))
         | Some l \<Rightarrow>
             if entryPoints > fst l
             then scanExact targetPoints rest (Some (entryPoints, perf))
             else scanExact targetPoints rest lowerPointsEntry)
      else scanExact targetPoints rest lowerPointsEntry)"

text \<open>
  The hand-timing block, which the source repeats word for word on both of its return
  paths: the triple \<open>(performance, appliedOffset, originalPerformance)\<close> after it.
\<close>

definition handTimingAdjust :: "host \<Rightarrow> loaders \<Rightarrow> string \<Rightarrow> bool \<Rightarrow> string
    \<Rightarrow> string \<times> real option \<times> string option" where
  "handTimingAdjust h ld event isHandTimed performance =
     (if isHandTimed then
        (case getHandTimingOffset ld event of
           None \<Rightarrow> (performance, None, None)
         | Some offset \<Rightarrow>
             if offset \<noteq> 0
             then (toFixed h (map_option (\<lambda>perfNum. perfNum - offset)
                                (parseFloat h performance)) 2,
                   Some (- offset), Some performance)
             else (performance, None, None))
      else (performance, None, None))"

definition lookupPerformance :: "host \<Rightarrow> loaders \<Rightarrow> string \<Rightarrow> string \<Rightarrow> real \<Rightarrow> bool
    \<Rightarrow> performanceResult option" where
  "lookupPerformance h ld gender event points isHandTimed =
     (let targetPoints = Math_round points in
      case findCategory ld gender event of
        None \<Rightarrow> None
      | Some category \<Rightarrow>
          if category = [] then None
          else
            (case getEventData ld gender category event of
               None \<Rightarrow> None
             | Some eventData \<Rightarrow>
                 if eventData = [] then None
                 else
                   (case scanExact targetPoints eventData None of
                      (exactMatchEntry, lowerPointsEntry) \<Rightarrow>
                        (case (case exactMatchEntry of
                                 Some e \<Rightarrow> Some e
                               | None \<Rightarrow> lowerPointsEntry) of
                           None \<Rightarrow>
                             (case scanLowest eventData None of
                                None \<Rightarrow> None
                              | Some lowestEntry \<Rightarrow>
                                  (case handTimingAdjust h ld event isHandTimed
                                          (snd lowestEntry) of
                                     (performance, appliedOffset, originalPerformance) \<Rightarrow>
                                       Some \<lparr> rev_performance = performance,
                                              rev_exactMatch = False,
                                              rev_points = fst lowestEntry,
                                              rev_appliedOffset = appliedOffset,
                                              rev_originalPerformance = originalPerformance \<rparr>))
                         | Some selectedEntry \<Rightarrow>
                             (case handTimingAdjust h ld event isHandTimed
                                     (snd selectedEntry) of
                                (performance, appliedOffset, originalPerformance) \<Rightarrow>
                                  Some \<lparr> rev_performance = performance,
                                         rev_exactMatch = (exactMatchEntry \<noteq> None),
                                         rev_points = fst selectedEntry,
                                         rev_appliedOffset = appliedOffset,
                                         rev_originalPerformance = originalPerformance \<rparr>)))))"

subsection \<open>Notions used to state the lookup properties\<close>

definition withinTolerance :: "(string \<Rightarrow> real option) \<Rightarrow> real \<Rightarrow> entry \<Rightarrow> bool" where
  "withinTolerance pf perfNum e =
     (case pf (snd e) of None \<Rightarrow> False | Some v \<Rightarrow> \<bar>v - perfNum\<bar> < 5 / 1000)"

text \<open>
  The user's performance beats a table entry: the table performance is strictly less for
  a distance event, strictly greater for a time event.
\<close>

definition beaten :: "(string \<Rightarrow> real option) \<Rightarrow> bool \<Rightarrow> real \<Rightarrow> entry \<Rightarrow> bool" where
  "beaten pf isDistanceEvent perfNum e =
     (case pf (snd e) of
        None \<Rightarrow> False
      | Some v \<Rightarrow> if isDistanceEvent then v < perfNum else perfNum < v)"

text \<open>The number the table is searched with: the input plus the hand-timing offset, if any.\<close>

definition adjustedPerformance :: "loaders \<Rightarrow> string \<Rightarrow> bool \<Rightarrow> real \<Rightarrow> real" where
  "adjustedPerformance ld event isHandTimed p =
     (if isHandTimed
      then (case getHandTimingOffset ld event of None \<Rightarrow> p | Some offset \<Rightarrow> p + offset)
      else p)"

text \<open>The offset that hand timing applies: the event's offset when requested and truthy.\<close>

definition appliedHandOffset :: "loaders \<Rightarrow> string \<Rightarrow> bool \<Rightarrow> real option" where
  "appliedHandOffset ld event isHandTimed =
     (if isHandTimed
      then (case getHandTimingOffset ld event of
              None \<Rightarrow> None
            | Some offset \<Rightarrow> if offset \<noteq> 0 then Some offset else None)
      else None)"

text \<open>
  The entry \<open>lookupPerformance\<close> settles on: the exact match, else the tracked lower entry,
  else the lowest entry of the table.
\<close>

definition selectedEntry :: "int \<Rightarrow> entry list \<Rightarrow> entry option" where
  "selectedEntry targetPoints eventData =
     (case scanExact targetPoints eventData None of
        (Some e, lowerPointsEntry) \<Rightarrow> Some e
      | (None, Some l) \<Rightarrow> Some l
      | (None, None) \<Rightarrow> scanLowest eventData None)"

definition keepHigher :: "entry \<Rightarrow> entry option \<Rightarrow> entry option" where
  "keepHigher e acc =
     (case acc of None \<Rightarrow> Some e | Some l \<Rightarrow> if fst e > fst l then Some e else acc)"

definition keepLower :: "entry \<Rightarrow> entry option \<Rightarrow> entry option" where
  "keepLower e acc =
     (case acc of None \<Rightarrow> Some e | Some l \<Rightarrow> if fst e < fst l then Some e else acc)"

text \<open>A table and a host for the worked examples: two sprint entries, 10.50 s and 10.40 s.\<close>

definition exampleHost :: host where
  "exampleHost =
     \<lparr> parseFloat = map_of [(''10.50'', 21 / 2), (''10.40'', 52 / 5), (''10.45'', 209 / 20),
                             (''10.26'', 513 / 50)],
       toFixed = (\<lambda>x n. if x = Some (513 / 50) \<and> n = 2 then ''10.26'' else ''NaN''),
       numberToString = (\<lambda>x. ''0'') \<rparr>"

definition exampleLoaders :: loaders where
  "exampleLoaders =
     \<lparr> findCategory = (\<lambda>gender event. if event = ''100m'' then Some ''sprints'' else None),
       getEventData = (\<lambda>gender category event.
          if event = ''100m'' then Some [(1220, ''10.40''), (1200, ''10.50'')] else None),
       getHandTimingOffset = (\<lambda>event. if event = ''100m'' then Some (24 / 100) else None) \<rparr>"

section \<open>Pace formatter\<close>

text \<open>
  A value a formatter may be handed: \<open>null\<close>, \<open>undefined\<close>, \<open>NaN\<close> or a finite number.
\<close>

datatype jsnumber = Null | Undefined | NaN | Num real

text \<open>The remainder operator \<open>%\<close> on finite numbers with a non-zero divisor (truncated division).\<close>

definition jsRemainder :: "real \<Rightarrow> real \<Rightarrow> real" where
  "jsRemainder x y =
     x - y * real_of_int (if x / y \<ge> 0 then \<lfloor>x / y\<rfloor> else \<lceil>x / y\<rceil>)"

definition padStart2 :: "string \<Rightarrow> string" where
  "padStart2 s = replicate (2 - length s) (CHR ''0'') @ s"

text \<open>
  \<open>s.replace(/\.?0+$/, '')\<close>: the leftmost position from which the rest of the string is an
  optional dot followed by one or more zeros is where the string is cut.
\<close>

definition zerosToEnd :: "string \<Rightarrow> bool" where
  "zerosToEnd s = (s \<noteq> [] \<and> list_all (\<lambda>c. c = CHR ''0'') s)"

fun replaceTrailingZeros :: "string \<Rightarrow> string" where
  "replaceTrailingZeros [] = []"
| "replaceTrailingZeros (c # cs) =
     (if (c = CHR ''.'' \<and> zerosToEnd cs) \<or> zerosToEnd (c # cs) then []
      else c # replaceTrailingZeros cs)"

definition formatSubMinuteTime :: "host \<Rightarrow> real \<Rightarrow> string" where
  "formatSubMinuteTime h seconds =
     (let rounded = real_of_int (Math_round (seconds * 100)) / 100 in
      if rounded \<ge> 60 then
        (let minutes = \<lfloor>rounded / 60\<rfloor>;
             secs = Math_round (jsRemainder rounded 60)
         in numberToString h (Some (real_of_int minutes)) @ '':''
              @ padStart2 (numberToString h (Some (real_of_int secs))))
      else replaceTrailingZeros (toFixed h (Some rounded) 2) @ ''s'')"

definition formatPaceTime :: "host \<Rightarrow> jsnumber \<Rightarrow> string" where
  "formatPaceTime h v =
     (case v of
        Null \<Rightarrow> ''''
      | Undefined \<Rightarrow> ''''
      | NaN \<Rightarrow> ''''
      | Num seconds \<Rightarrow>
          if seconds < 0 then ''''
          else if seconds < 60 then formatSubMinuteTime h seconds
          else
            (let hours = \<lfloor>seconds / 3600\<rfloor>;
                 minutes = \<lfloor>jsRemainder seconds 3600 / 60\<rfloor>;
                 secs = Math_round (jsRemainder seconds 60)
             in if hours > 0
                then numberToString h (Some (real_of_int hours)) @ '':''
                       @ padStart2 (numberToString h (Some (real_of_int minutes))) @ '':''
                       @ padStart2 (numberToString h (Some (real_of_int secs)))
                else numberToString h (Some (real_of_int minutes)) @ '':''
                       @ padStart2 (numberToString h (Some (real_of_int secs)))))"

definition formatTotalTime :: "host \<Rightarrow> jsnumber \<Rightarrow> string" where
  "formatTotalTime h v =
     (case v of
        Null \<Rightarrow> ''''
      | Undefined \<Rightarrow> ''''
      | NaN \<Rightarrow> ''''
      | Num seconds \<Rightarrow>
          if seconds < 0 then ''''
          else if seconds < 60 then formatSubMinuteTime h seconds
          else
            (let hours = \<lfloor>seconds / 3600\<rfloor>;
                 minutes = \<lfloor>jsRemainder seconds 3600 / 60\<rfloor>;
                 secs = Math_round (jsRemainder seconds 60)
             in if hours > 0
                then numberToString h (Some (real_of_int hours)) @ '':''
                       @ padStart2 (numberToString h (Some (real_of_int minutes))) @ '':''
                       @ padStart2 (numberToString h (Some (real_of_int secs)))
                else numberToString h (Some (real_of_int minutes)) @ '':''
                       @ padStart2 (numberToString h (Some (real_of_int secs)))))"

subsection \<open>Units\<close>




text \<open>
  \<open>convertDistance\<close>; \<open>None\<close> is a distance that is \<open>null\<close>, \<open>undefined\<close> or \<open>NaN\<close>. An object
  literal used as a lookup table is the association list of its own keys, and
  \<open>table[unit] || 1\<close> is the factor 1 for a unit that is not a key (as it would be for a
  factor 0). Names every object inherits, such as \<open>constructor\<close>, are not unit names and
  are outside the model.
\<close>

definition toMetres :: "(string \<times> real) list" where
  "toMetres = [(''m'', 1), (''km'', 1000), (''miles'', 1609344 / 1000),
               (''yards'', 9144 / 10000), (''feet'', 3048 / 10000)]"

definition orOne :: "real option \<Rightarrow> real" where
  "orOne f = (case f of None \<Rightarrow> 1 | Some x \<Rightarrow> if x = 0 then 1 else x)"

definition normalizeUnit :: "string \<Rightarrow> string" where
  "normalizeUnit unit = (if unit = ''metres'' then ''m'' else unit)"

definition convertDistance :: "real option \<Rightarrow> string \<Rightarrow> string \<Rightarrow> real" where
  "convertDistance distance fromUnit toUnit =
     (case distance of
        None \<Rightarrow> 0
      | Some d \<Rightarrow>
          if fromUnit = toUnit then d
          else
            (let metres = d * orOne (map_of toMetres (normalizeUnit fromUnit))
             in metres / orOne (map_of toMetres (normalizeUnit toUnit))))"

section \<open>Pace calculation engine\<close>

datatype jsError = Error string

text \<open>
  \<open>calculatePace\<close> and \<open>calculateTotalTime\<close> open with the same two blocks, the choice of
  \<open>targetUnit\<close> and the division for the fixed-interval units; they are written once here.
\<close>

definition paceTargetUnit :: "string \<Rightarrow> string" where
  "paceTargetUnit paceUnit =
     (if paceUnit = ''mile'' then ''miles''
      else if paceUnit = ''400m'' \<or> paceUnit = ''200m'' \<or> paceUnit = ''100m'' then ''m''
      else ''km'')"

definition paceAdjustedDistance :: "string \<Rightarrow> real \<Rightarrow> real" where
  "paceAdjustedDistance paceUnit distanceInPaceUnit =
     (if paceUnit = ''400m'' then distanceInPaceUnit / 400
      else if paceUnit = ''200m'' then distanceInPaceUnit / 200
      else if paceUnit = ''100m'' then distanceInPaceUnit / 100
      else distanceInPaceUnit)"

definition calculatePace :: "real \<Rightarrow> real \<Rightarrow> string \<Rightarrow> jsError + real" where
  "calculatePace distanceMetres totalTimeSeconds paceUnit =
     (if distanceMetres \<le> 0 \<or> totalTimeSeconds \<le> 0
      then Inl (Error ''Distance and time must be greater than 0'')
      else
        (let targetUnit = paceTargetUnit paceUnit;
             distanceInPaceUnit = convertDistance (Some distanceMetres) ''metres'' targetUnit;
             adjustedDistance = paceAdjustedDistance paceUnit distanceInPaceUnit
         in Inr (totalTimeSeconds / adjustedDistance)))"

definition calculateTotalTime :: "real \<Rightarrow> real \<Rightarrow> string \<Rightarrow> jsError + real" where
  "calculateTotalTime distanceMetres paceSecondsPerUnit paceUnit =
     (if distanceMetres \<le> 0 \<or> paceSecondsPerUnit \<le> 0
      then Inl (Error ''Distance and pace must be greater than 0'')
      else
        (let targetUnit = paceTargetUnit paceUnit;
             distanceInPaceUnit = convertDistance (Some distanceMetres) ''metres'' targetUnit;
             adjustedDistance = paceAdjustedDistance paceUnit distanceInPaceUnit
         in Inr (paceSecondsPerUnit * adjustedDistance)))"

text \<open>The \<open>conversions\<close> tables of \<open>calculateSpeed\<close> and \<open>calculateTotalTimeFromSpeed\<close>.\<close>

definition speedConversions :: "(string \<times> real) list" where
  "speedConversions = [(''ms'', 1), (''kmh'', 36 / 10), (''mph'', 223694 / 100000),
                       (''fts'', 328084 / 100000), (''yds'', 109361 / 100000)]"

definition calculateSpeed :: "real \<Rightarrow> real \<Rightarrow> string \<Rightarrow> jsError + real" where
  "calculateSpeed distanceMetres totalTimeSeconds speedUnit =
     (if distanceMetres \<le> 0 \<or> totalTimeSeconds \<le> 0
      then Inl (Error ''Distance and time must be greater than 0'')
      else
        (let metresPerSecond = distanceMetres / totalTimeSeconds
         in Inr (metresPerSecond * orOne (map_of speedConversions speedUnit))))"

definition inverseSpeedConversions :: "(string \<times> real) list" where
  "inverseSpeedConversions =
     [(''ms'', 1), (''kmh'', 1 / (36 / 10)), (''mph'', 1 / (223694 / 100000)),
      (''fts'', 1 / (328084 / 100000)), (''yds'', 1 / (109361 / 100000))]"

definition calculateTotalTimeFromSpeed :: "real \<Rightarrow> real \<Rightarrow> string \<Rightarrow> jsError + real" where
  "calculateTotalTimeFromSpeed distanceMetres speed speedUnit =
     (if distanceMetres \<le> 0 \<or> speed \<le> 0
      then Inl (Error ''Distance and speed must be greater than 0'')
      else
        (let metresPerSecond = speed * orOne (map_of inverseSpeedConversions speedUnit)
         in Inr (distanceMetres / metresPerSecond)))"

subsection \<open>Split tables\<close>

text \<open>
  The split tables are computed with doubles: every \<open>+\<close>, \<open>-\<close>, \<open>*\<close> and \<open>/\<close> of the source is
  the rounded operation.
\<close>

record intervalInfo =
  info_metres :: double
  info_value :: double
  info_unit :: string

record split =
  distanceLabel :: string
  splitDistanceLabel :: string
  splitTime :: double
  time :: double

text \<open>\<open>parseFloat(x.toFixed(2))\<close>, the number a label shows.\<close>

definition roundedForLabel :: "doubleHost \<Rightarrow> double \<Rightarrow> double" where
  "roundedForLabel dh x = parseFloat64 dh (toFixed64 dh x 2)"

text \<open>
  The loop of \<open>calculateSmartSplits\<close> that generates the rows. The loop may run forever (an
  interval of zero does not move the cumulative distance, and neither does an interval that
  the rounding of the sum absorbs), so the function is partial: \<open>None\<close> is a loop that does
  not return.
\<close>

partial_function (option) smartSplitsLoop ::
  "doubleHost \<Rightarrow> double \<Rightarrow> double \<Rightarrow> double \<Rightarrow> intervalInfo \<Rightarrow> double \<Rightarrow> double \<Rightarrow> double
     \<Rightarrow> split list \<Rightarrow> split list option" where
  "smartSplitsLoop dh distanceMetres pacePerKm splitIntervalMetres adjustedIntervalInfo
       currentDistanceMetres previousDistanceMetres previousTime splits =
     (if dless currentDistanceMetres distanceMetres then
        (let advanced = fadd currentDistanceMetres splitIntervalMetres;
             current = (if dless distanceMetres advanced then distanceMetres else advanced);
             cumulativeTime = fmul (fdiv current (Finite 1000)) pacePerKm;
             splitDistanceMetres = fsub current previousDistanceMetres;
             splitTime = fsub cumulativeTime previousTime;
             distanceInIntervalUnits =
               fmul (fdiv current splitIntervalMetres) (info_value adjustedIntervalInfo);
             formattedValue = roundedForLabel dh distanceInIntervalUnits;
             distanceLabel = toString64 dh formattedValue @ info_unit adjustedIntervalInfo;
             splitDistanceInIntervalUnits =
               fmul (fdiv splitDistanceMetres splitIntervalMetres)
                 (info_value adjustedIntervalInfo);
             splitFormattedValue = roundedForLabel dh splitDistanceInIntervalUnits;
             splitDistanceLabel =
               toString64 dh splitFormattedValue @ info_unit adjustedIntervalInfo
         in smartSplitsLoop dh distanceMetres pacePerKm splitIntervalMetres adjustedIntervalInfo
              current current cumulativeTime
              (splits @ [\<lparr> distanceLabel = distanceLabel,
                            splitDistanceLabel = splitDistanceLabel,
                            splitTime = splitTime, time = cumulativeTime \<rparr>]))
      else Some splits)"

text \<open>
  The loop that grows the interval. Its test is \<open>numSplits >= 100\<close> with \<open>numSplits\<close> always
  \<open>Math.floor(distanceMetres / splitIntervalMetres)\<close> for the current interval. The result
  is the triple of \<open>multiplier\<close>, \<open>splitIntervalMetres\<close> and \<open>adjustedIntervalInfo.value\<close> after
  the loop.
\<close>

partial_function (option) growInterval ::
  "double \<Rightarrow> double \<Rightarrow> double \<Rightarrow> double \<Rightarrow> (double \<times> double \<times> double) option" where
  "growInterval distanceMetres multiplier splitIntervalMetres infoValue =
     (if dgeq (dfloor (fdiv distanceMetres splitIntervalMetres)) (Finite 100)
      then growInterval distanceMetres (fmul multiplier (Finite 10))
             (fmul splitIntervalMetres (Finite 10)) (fmul infoValue (Finite 10))
      else Some (multiplier, splitIntervalMetres, infoValue))"

text \<open>\<open>calculateSmartSplits\<close>; the event configuration is not used by the source, and the
  debugging line written to the console is left out.\<close>

definition calculateSmartSplits ::
  "doubleHost \<Rightarrow> double \<Rightarrow> double \<Rightarrow> 'c \<Rightarrow> double \<Rightarrow> intervalInfo \<Rightarrow> split list option" where
  "calculateSmartSplits dh distanceMetres pacePerKm eventConfig initialSplitIntervalMetres
       splitIntervalInfo =
     (case growInterval distanceMetres (Finite 1) initialSplitIntervalMetres
             (info_value splitIntervalInfo) of
        None \<Rightarrow> None
      | Some (multiplier, splitIntervalMetres, infoValue) \<Rightarrow>
          smartSplitsLoop dh distanceMetres pacePerKm splitIntervalMetres
            (splitIntervalInfo \<lparr> info_value := infoValue \<rparr>) (Finite 0) (Finite 0) (Finite 0) [])"



subsection \<open>Notions used to state the properties of the split tables\<close>

text \<open>The cumulative distance after one more pass of a row-generating loop.\<close>

definition advanceDistance :: "double \<Rightarrow> double \<Rightarrow> double \<Rightarrow> double" where
  "advanceDistance distanceMetres splitIntervalMetres currentDistanceMetres =
     (let advanced = fadd currentDistanceMetres splitIntervalMetres
      in if dless distanceMetres advanced then distanceMetres else advanced)"

text \<open>
  The number of passes a row-generating loop makes from a cumulative distance on, found by
  running the passes; \<open>None\<close> when the loop is still running after \<open>fuel\<close> of them.
\<close>

fun passCount :: "nat \<Rightarrow> double \<Rightarrow> double \<Rightarrow> double \<Rightarrow> nat option" where
  "passCount 0 d i cur = (if dless cur d then None else Some 0)"
| "passCount (Suc fuel) d i cur =
     (if dless cur d then map_option Suc (passCount fuel d i (advanceDistance d i cur))
      else Some 0)"




section \<open>Collapsible sections\<close>

text \<open>
  \<open>makeCollapsible\<close> decorates a title and a content element. Of the document the model
  keeps what the function sets: whether the content and the icon carry their
  \<open>--collapsed\<close> class, and the title's \<open>aria-expanded\<close> attribute. Session storage is a
  map from keys to strings.
\<close>

type_synonym sessionStorage = "string \<rightharpoonup> string"

record section_state =
  contentCollapsed :: bool
  iconCollapsed :: bool
  ariaExpanded :: string

definition makeCollapsible :: "sessionStorage \<Rightarrow> string \<Rightarrow> bool \<Rightarrow> section_state" where
  "makeCollapsible storage storageKey defaultCollapsed =
     (let isCollapsed =
            (case storage storageKey of
               Some storedState \<Rightarrow> storedState = ''true''
             | None \<Rightarrow> defaultCollapsed)
      in if isCollapsed
         then \<lparr> contentCollapsed = True, iconCollapsed = True, ariaExpanded = ''false'' \<rparr>
         else \<lparr> contentCollapsed = False, iconCollapsed = False, ariaExpanded = ''true'' \<rparr>)"

text \<open>The click handler \<open>makeCollapsible\<close> installs: toggle both classes, store the new state.\<close>

definition clickTitle :: "string \<Rightarrow> sessionStorage \<times> section_state
    \<Rightarrow> sessionStorage \<times> section_state" where
  "clickTitle storageKey st =
     (let nowCollapsed = \<not> contentCollapsed (snd st)
      in ((fst st)(storageKey \<mapsto> (if nowCollapsed then ''true'' else ''false'')),
          \<lparr> contentCollapsed = nowCollapsed,
            iconCollapsed = \<not> iconCollapsed (snd st),
            ariaExpanded = (if nowCollapsed then ''false'' else ''true'') \<rparr>))"

text \<open>
  The calls of the pace calculator page: the last statement of \<open>displayPaceResults\<close>,
  \<open>displayTimeResults\<close>, \<open>displaySpeedResults\<close> and \<open>displaySpeedTimeResults\<close> (the same call
  in all four) for the Equivalent Paces panel, and of \<open>displaySplits\<close> for the Split Times
  panel.
\<close>

definition equivalentPacesPanel :: "sessionStorage \<Rightarrow> section_state" where
  "equivalentPacesPanel storage =
     makeCollapsible storage ''paceCalculator.equivalentPaces.collapsed'' True"

definition splitTimesPanel :: "sessionStorage \<Rightarrow> section_state" where
  "splitTimesPanel storage =
     makeCollapsible storage ''paceCalculator.splitTimes.collapsed'' False"

section \<open>Scoring table extractor\<close>

subsection \<open>\<open>loadAndMerge\<close> and \<open>cleanAndSortData\<close>\<close>

text \<open>
  An element of an event's list. \<open>storeCrossReferencedData\<close> pushes objects
  \<open>{performance, points}\<close>; \<open>loadAndMerge\<close> pushes the elements of the existing output file
  as they are, and \<open>exportToJSON\<close> writes that file with every element as the array
  \<open>[points, performance]\<close>. Reading \<open>.performance\<close> or \<open>.points\<close> of such an array gives
  \<open>undefined\<close>, which is \<open>None\<close> here.
\<close>

datatype listItem = Object string int | Array int string

fun performanceOf :: "listItem \<Rightarrow> string option" where
  "performanceOf (Object performance points) = Some performance"
| "performanceOf (Array points performance) = None"

fun pointsOf :: "listItem \<Rightarrow> int option" where
  "pointsOf (Object performance points) = Some points"
| "pointsOf (Array points performance) = None"

text \<open>\<open>a < b\<close> on two property values: false as soon as one of them is \<open>undefined\<close>.\<close>

fun jsLess :: "int option \<Rightarrow> int option \<Rightarrow> bool" where
  "jsLess (Some a) (Some b) = (a < b)"
| "jsLess a b = False"

text \<open>
  The \<open>Map\<close> of the de-duplication, in insertion order: \<open>set\<close> on a key already present
  replaces the value where it stands, \<open>set\<close> on a new key appends. The key \<open>None\<close> is
  \<open>undefined\<close>.
\<close>

fun mapSet :: "(string option \<times> listItem) list \<Rightarrow> string option \<Rightarrow> listItem
    \<Rightarrow> (string option \<times> listItem) list" where
  "mapSet [] key v = [(key, v)]"
| "mapSet ((k, old) # rest) key v =
     (if k = key then (k, v) # rest else (k, old) # mapSet rest key v)"

definition dedupeStep :: "listItem \<Rightarrow> (string option \<times> listItem) list
    \<Rightarrow> (string option \<times> listItem) list" where
  "dedupeStep entry uniqueMap =
     (let key = performanceOf entry in
      case map_of uniqueMap key of
        None \<Rightarrow> mapSet uniqueMap key entry
      | Some kept \<Rightarrow>
          if jsLess (pointsOf kept) (pointsOf entry) then mapSet uniqueMap key entry
          else uniqueMap)"

text \<open>
  The comparator \<open>(a, b) => b.points - a.points\<close>; the difference is \<open>NaN\<close> when one of the
  two is an array, and the sort counts \<open>NaN\<close> as 0. On a list of objects the comparator is
  a consistent order, \<open>Array.prototype.sort\<close> is stable, and the result is the one of the
  stable insertion sort below. With an array in the list the comparator is not consistent
  and the order of the result is left to the implementation; the elements are the same.
\<close>

definition sortOrder :: "listItem \<Rightarrow> listItem \<Rightarrow> int" where
  "sortOrder a b =
     (case (pointsOf b, pointsOf a) of
        (Some pb, Some pa) \<Rightarrow> pb - pa
      | _ \<Rightarrow> 0)"

fun insertSorted :: "listItem \<Rightarrow> listItem list \<Rightarrow> listItem list" where
  "insertSorted x [] = [x]"
| "insertSorted x (y # ys) =
     (if sortOrder x y \<le> 0 then x # y # ys else y # insertSorted x ys)"

definition sortEntries :: "listItem list \<Rightarrow> listItem list" where
  "sortEntries xs = foldr insertSorted xs []"

text \<open>What \<open>cleanAndSortData\<close> does to one event's list.\<close>

definition cleanEntries :: "listItem list \<Rightarrow> listItem list" where
  "cleanEntries entries = sortEntries (map snd (fold dedupeStep entries []))"

text \<open>The tables: gender, category and event name are the keys of three nested objects.\<close>

type_synonym tables = "string \<rightharpoonup> (string \<rightharpoonup> (string \<rightharpoonup> listItem list))"

definition cleanAndSortData :: "tables \<Rightarrow> tables" where
  "cleanAndSortData tbls =
     (\<lambda>gender. map_option
        (\<lambda>categories category. map_option
           (\<lambda>events eventName. map_option cleanEntries (events eventName))
           (categories category))
        (tbls gender))"

definition tableAt :: "tables \<Rightarrow> string \<Rightarrow> string \<Rightarrow> string \<Rightarrow> listItem list option" where
  "tableAt tbls gender category eventName =
     (case tbls gender of
        None \<Rightarrow> None
      | Some categories \<Rightarrow>
          (case categories category of
             None \<Rightarrow> None
           | Some events \<Rightarrow> events eventName))"

text \<open>
  \<open>loadAndMerge\<close>. The argument is the parsed content of the existing output file, \<open>None\<close>
  when there is no file (or it cannot be read): for every gender, category and event of the
  file the missing levels of the tables are created and the file's elements are pushed
  onto the event's list.
\<close>

type_synonym existingData = "string \<rightharpoonup> (string \<rightharpoonup> (string \<rightharpoonup> (int \<times> string) list))"

definition loadAndMerge :: "existingData option \<Rightarrow> tables \<Rightarrow> tables" where
  "loadAndMerge existing tbls =
     (case existing of
        None \<Rightarrow> tbls
      | Some existingData \<Rightarrow>
          (\<lambda>gender.
             case existingData gender of
               None \<Rightarrow> tbls gender
             | Some categories \<Rightarrow>
                 Some (\<lambda>category.
                   let present = (case tbls gender of None \<Rightarrow> Map.empty | Some cs \<Rightarrow> cs) in
                   case categories category of
                     None \<Rightarrow> present category
                   | Some events \<Rightarrow>
                       Some (\<lambda>eventName.
                         let presentEvents =
                               (case present category of None \<Rightarrow> Map.empty | Some es \<Rightarrow> es) in
                         case events eventName of
                           None \<Rightarrow> presentEvents eventName
                         | Some entries \<Rightarrow>
                             Some ((case presentEvents eventName of None \<Rightarrow> [] | Some l \<Rightarrow> l)
                                   @ map (\<lambda>(points, performance). Array points performance)
                                       entries)))))"

text \<open>
  The head of \<open>exportToJSON\<close>: the optional merge, then \<open>cleanAndSortData\<close>; and the pair
  \<open>[entry.points, entry.performance]\<close> it writes for an element.
\<close>

definition tablesAtExport :: "existingData option \<Rightarrow> bool \<Rightarrow> tables \<Rightarrow> tables" where
  "tablesAtExport existing mergeWithExisting tbls =
     cleanAndSortData (if mergeWithExisting then loadAndMerge existing tbls else tbls)"

definition compactEntry :: "listItem \<Rightarrow> int option \<times> string option" where
  "compactEntry entry = (pointsOf entry, performanceOf entry)"

text \<open>What an element records, whichever its shape.\<close>

fun recordedPerformance :: "listItem \<Rightarrow> string" where
  "recordedPerformance (Object performance points) = performance"
| "recordedPerformance (Array points performance) = performance"

fun recordedPoints :: "listItem \<Rightarrow> int" where
  "recordedPoints (Object performance points) = points"
| "recordedPoints (Array points performance) = points"

fun isObject :: "listItem \<Rightarrow> bool" where
  "isObject (Object performance points) = True"
| "isObject (Array points performance) = False"

subsection \<open>Regular expressions\<close>

text \<open>
  The regular expressions of \<open>parseCrossReferencedRow\<close> are built from character classes,
  sequence, \<open>?\<close>, \<open>+\<close> on a class and the bounded repetitions \<open>{2}\<close>, \<open>{1,2}\<close> and \<open>{0,2}\<close>.
  \<open>rmatch r s\<close> lists what is left of \<open>s\<close> after each way of matching \<open>r\<close> at its start, in
  the order a backtracking matcher tries them (quantifiers are greedy): the head of the
  list is the match the engine reports, and an anchored test succeeds when some way leaves
  nothing.
\<close>

datatype charClass = Digit | Lit char | Or charClass charClass

fun inClass :: "charClass \<Rightarrow> char \<Rightarrow> bool" where
  "inClass Digit c = (c \<in> set ''0123456789'')"
| "inClass (Lit x) c = (c = x)"
| "inClass (Or a b) c = (inClass a c \<or> inClass b c)"

datatype regex = One charClass | Many1 charClass | Seq regex regex | Opt regex

fun many1 :: "charClass \<Rightarrow> string \<Rightarrow> string list" where
  "many1 c [] = []"
| "many1 c (x # xs) = (if inClass c x then many1 c xs @ [xs] else [])"

fun rmatch :: "regex \<Rightarrow> string \<Rightarrow> string list" where
  "rmatch (One c) s = (case s of [] \<Rightarrow> [] | x # xs \<Rightarrow> if inClass c x then [xs] else [])"
| "rmatch (Many1 c) s = many1 c s"
| "rmatch (Seq a b) s = concat (map (rmatch b) (rmatch a s))"
| "rmatch (Opt a) s = rmatch a s @ [s]"

definition rep2 :: "regex \<Rightarrow> regex" where
  "rep2 a = Seq a a"

definition rep1to2 :: "regex \<Rightarrow> regex" where
  "rep1to2 a = Seq a (Opt a)"

definition rep0to2 :: "regex \<Rightarrow> regex" where
  "rep0to2 a = Opt (Seq a (Opt a))"

text \<open>\<open>/^r$/.test(s)\<close>.\<close>

definition regexTest :: "regex \<Rightarrow> string \<Rightarrow> bool" where
  "regexTest r s = ([] \<in> set (rmatch r s))"

text \<open>
  \<open>s.match(/r/g)\<close>: the matches from left to right, each search starting where the last
  match ended (one character further after an empty match). The empty list is \<open>null\<close>.
\<close>

function matchAll :: "regex \<Rightarrow> string \<Rightarrow> string list" where
  "matchAll r s =
     (case rmatch r s of
        [] \<Rightarrow> (case s of [] \<Rightarrow> [] | c # cs \<Rightarrow> matchAll r cs)
      | rest # others \<Rightarrow>
          if length rest < length s
          then take (length s - length rest) s # matchAll r rest
          else [] # (case s of [] \<Rightarrow> [] | c # cs \<Rightarrow> matchAll r cs))"
  by pat_completeness auto
termination
  by (relation "measure (\<lambda>(r, s). length s)") auto

declare matchAll.simps [simp del]

subsection \<open>String builtins\<close>

definition isSpace :: "char \<Rightarrow> bool" where
  "isSpace c = (c \<in> set [CHR '' '', CHR 0x09, CHR 0x0A, CHR 0x0B, CHR 0x0C, CHR 0x0D])"

text \<open>\<open>s.split(/\s+/).filter(col => col.trim())\<close>: the maximal runs without white space.\<close>

fun splitWhitespace :: "string \<Rightarrow> string \<Rightarrow> string list" where
  "splitWhitespace [] current = (if current = [] then [] else [current])"
| "splitWhitespace (c # cs) current =
     (if isSpace c
      then (if current = [] then splitWhitespace cs [] else current # splitWhitespace cs [])
      else splitWhitespace cs (current @ [c]))"

definition clampIndex :: "string \<Rightarrow> int \<Rightarrow> nat" where
  "clampIndex s i = (if i < 0 then 0 else min (nat i) (length s))"

text \<open>\<open>s.substring(a, b)\<close>: both indices clamped to the string, and swapped when \<open>a > b\<close>.\<close>

definition substring :: "string \<Rightarrow> int \<Rightarrow> int \<Rightarrow> string" where
  "substring s a b =
     (let lo = min (clampIndex s a) (clampIndex s b);
          hi = max (clampIndex s a) (clampIndex s b)
      in take (hi - lo) (drop lo s))"

text \<open>\<open>s.indexOf(m, position)\<close>, \<open>-1\<close> when \<open>m\<close> does not occur from \<open>position\<close> on.\<close>

fun indexFrom :: "string \<Rightarrow> string \<Rightarrow> nat \<Rightarrow> int" where
  "indexFrom [] m k = (if m = [] then int k else - 1)"
| "indexFrom (c # cs) m k =
     (if startsWith (c # cs) m then int k else indexFrom cs m (Suc k))"

definition indexOf :: "string \<Rightarrow> string \<Rightarrow> int \<Rightarrow> int" where
  "indexOf s m position = indexFrom (drop (clampIndex s position) s) m (clampIndex s position)"

text \<open>
  \<open>parseInt(s)\<close> with no radix: leading white space and a sign are skipped, a \<open>0x\<close> prefix
  selects base 16, and the value is that of the longest run of digits that follows;
  whatever comes after the run is ignored. \<open>None\<close> is \<open>NaN\<close>: there is no digit to read.
  (The value is exact; a double rounds it beyond $2^{53}$.)
\<close>

definition digitValue :: "char \<Rightarrow> nat option" where
  "digitValue c =
     map_of [(CHR ''0'', 0), (CHR ''1'', 1), (CHR ''2'', 2), (CHR ''3'', 3), (CHR ''4'', 4),
             (CHR ''5'', 5), (CHR ''6'', 6), (CHR ''7'', 7), (CHR ''8'', 8), (CHR ''9'', 9),
             (CHR ''a'', 10), (CHR ''b'', 11), (CHR ''c'', 12), (CHR ''d'', 13),
             (CHR ''e'', 14), (CHR ''f'', 15), (CHR ''A'', 10), (CHR ''B'', 11),
             (CHR ''C'', 12), (CHR ''D'', 13), (CHR ''E'', 14), (CHR ''F'', 15)] c"

fun readDigits :: "nat \<Rightarrow> string \<Rightarrow> nat option \<Rightarrow> nat option" where
  "readDigits radix [] acc = acc"
| "readDigits radix (c # cs) acc =
     (case digitValue c of
        None \<Rightarrow> acc
      | Some v \<Rightarrow>
          if v < radix
          then readDigits radix cs (Some ((case acc of None \<Rightarrow> 0 | Some a \<Rightarrow> a) * radix + v))
          else acc)"

definition parseInt :: "string \<Rightarrow> int option" where
  "parseInt inputString =
     (let s = dropWhile isSpace inputString;
          negative = startsWith s ''-'';
          s1 = (if startsWith s ''-'' \<or> startsWith s ''+'' then tl s else s);
          hex = (startsWith s1 ''0x'' \<or> startsWith s1 ''0X'');
          digits = (if hex then drop 2 s1 else s1);
          radix = (if hex then 16 else 10)
      in case readDigits radix digits None of
           None \<Rightarrow> None
         | Some n \<Rightarrow> Some (if negative then - int n else int n))"

subsection \<open>\<open>parseCrossReferencedRow\<close>\<close>

text \<open>\<open>/^\d+(?:[\.:]\d+){1,2}(?:\.\d+)?$/\<close> without its anchors.\<close>

definition simpleValue :: regex where
  "simpleValue =
     Seq (Many1 Digit)
       (Seq (rep1to2 (Seq (One (Or (Lit (CHR ''.'')) (Lit (CHR '':'')))) (Many1 Digit)))
            (Opt (Seq (One (Lit (CHR ''.''))) (Many1 Digit))))"

text \<open>\<open>/\d+(?::\d{2}){0,2}(?:\.\d{2})?/g\<close>.\<close>

definition performancePattern :: regex where
  "performancePattern =
     Seq (Many1 Digit)
       (Seq (rep0to2 (Seq (One (Lit (CHR '':''))) (rep2 (One Digit))))
            (Opt (Seq (One (Lit (CHR ''.''))) (rep2 (One Digit)))))"

text \<open>One \<open>'-'\<close> for every dash of a stretch between two matches.\<close>

definition dashesOf :: "string \<Rightarrow> string list" where
  "dashesOf s = map (\<lambda>c. [c]) (filter (\<lambda>c. c = CHR ''-'') s)"

text \<open>The loop over the matches and the dashes after the last match.\<close>

fun rebuildParts :: "string \<Rightarrow> string list \<Rightarrow> int \<Rightarrow> string list \<Rightarrow> string list" where
  "rebuildParts token [] lastIndex parts =
     parts @ dashesOf (substring token lastIndex (int (length token)))"
| "rebuildParts token (m # matches) lastIndex parts =
     (let matchIndex = indexOf token m lastIndex;
          beforeMatch = substring token lastIndex matchIndex
      in rebuildParts token matches (matchIndex + int (length m))
           (parts @ dashesOf beforeMatch @ [m]))"

text \<open>The function passed to \<open>flatMap\<close>.\<close>

definition splitToken :: "string \<Rightarrow> string list" where
  "splitToken token =
     (if token = ''-'' \<or> token = ''--'' \<or> regexTest simpleValue token
      then (if token = ''--'' then [''-'', ''-''] else [token])
      else
        (let matches = matchAll performancePattern token in
         if matches \<noteq> []
         then (let parts = rebuildParts token matches 0 []
               in if parts \<noteq> [] then parts else [token])
         else [token]))"

definition rowTokens :: "string \<Rightarrow> string list" where
  "rowTokens line = concat (map splitToken (splitWhitespace line []))"

text \<open>\<open>/^[\d:.]+$/\<close> without its anchors.\<close>

definition performanceChars :: regex where
  "performanceChars = Many1 (Or Digit (Or (Lit (CHR '':'')) (Lit (CHR ''.''))))"

definition parsePerformanceValue :: "string \<Rightarrow> string option" where
  "parsePerformanceValue v =
     (if v = [] \<or> v = ''-'' then None
      else if regexTest performanceChars v then Some v
      else None)"

record row =
  row_points :: "int option"
  performances :: "string option list"
  events :: "string list"

text \<open>The loop that maps the performance values onto the event headers, from index \<open>i\<close> on.\<close>

function mapToHeaders :: "string list \<Rightarrow> string list \<Rightarrow> nat \<Rightarrow> string option list
    \<Rightarrow> string option list" where
  "mapToHeaders eventHeaders performanceValues i acc =
     (if i < length eventHeaders
      then mapToHeaders eventHeaders performanceValues (Suc i)
             (acc @ [if i < length performanceValues
                     then parsePerformanceValue (performanceValues ! i)
                     else None])
      else acc)"
  by pat_completeness auto
termination
  by (relation "measure (\<lambda>(eventHeaders, performanceValues, i, acc). length eventHeaders - i)")
     auto

declare mapToHeaders.simps [simp del]

definition parseCrossReferencedRow :: "string \<Rightarrow> string list \<Rightarrow> string \<Rightarrow> row option" where
  "parseCrossReferencedRow line eventHeaders pointsPosition =
     (let allTokens = rowTokens line in
      if allTokens = [] then None
      else if pointsPosition = ''left'' then
        (case parseInt (allTokens ! 0) of
           None \<Rightarrow> None
         | Some pts \<Rightarrow>
             if pts < 0 \<or> pts > 1500 then None
             else Some \<lparr> row_points = Some pts,
                         performances = mapToHeaders eventHeaders (drop 1 allTokens) 0 [],
                         events = eventHeaders \<rparr>)
      else if pointsPosition = ''right'' then
        (case parseInt (allTokens ! (length allTokens - 1)) of
           None \<Rightarrow> None
         | Some pts \<Rightarrow>
             if pts < 0 \<or> pts > 1500 then None
             else Some \<lparr> row_points = Some pts,
                         performances =
                           mapToHeaders eventHeaders (take (length allTokens - 1) allTokens) 0 [],
                         events = eventHeaders \<rparr>)
      else Some \<lparr> row_points = None,
                  performances = mapToHeaders eventHeaders [] 0 [],
                  events = eventHeaders \<rparr>)"

text \<open>The number a run of decimal digits writes.\<close>

definition decimalValue :: "string \<Rightarrow> nat" where
  "decimalValue ds = foldl (\<lambda>a c. a * 10 + (case digitValue c of None \<Rightarrow> 0 | Some v \<Rightarrow> v)) 0 ds"

section \<open>Properties of the performance lookup\<close>

subsection \<open>The two scanning loops as folds\<close>

lemma scanLower_fold:
  "\<forall>e \<in> set tbl. \<not> withinTolerance pf p e \<Longrightarrow>
   scanLower pf d p tbl acc = Inr (fold keepHigher (filter (beaten pf d p) tbl) acc)"
proof (induction tbl arbitrary: acc)
  case Nil
  show ?case by simp
next
  case (Cons e tbl)
  obtain pts perf where e: "e = (pts, perf)" by (cases e)
  have tl: "\<forall>x \<in> set tbl. \<not> withinTolerance pf p x" using Cons.prems by simp
  have hd: "\<not> withinTolerance pf p (pts, perf)" using Cons.prems e by simp
  show ?case
  proof (cases "pf perf")
    case None
    then show ?thesis using Cons.IH [OF tl] e by (simp add: beaten_def)
  next
    case (Some v)
    with hd have far: "\<not> \<bar>v - p\<bar> < 5 / 1000" by (simp add: withinTolerance_def)
    show ?thesis
    proof (cases d)
      case True
      then show ?thesis
        using Cons.IH [OF tl] e Some far
        by (cases acc) (simp_all add: beaten_def keepHigher_def)
    next
      case False
      then show ?thesis
        using Cons.IH [OF tl] e Some far
        by (cases acc) (simp_all add: beaten_def keepHigher_def)
    qed
  qed
qed

lemma scanLowest_fold: "scanLowest tbl acc = fold keepLower tbl acc"
proof (induction tbl arbitrary: acc)
  case Nil
  show ?case by simp
next
  case (Cons e tbl)
  obtain pts perf where e: "e = (pts, perf)" by (cases e)
  show ?case using Cons.IH e by (cases acc) (simp_all add: keepLower_def)
qed

lemma Max_insert_Max:
  fixes A B :: "int set"
  assumes "finite A" "finite B" "A \<noteq> {}"
  shows "Max (insert (Max A) B) = Max (A \<union> B)"
proof (cases "B = {}")
  case True
  then show ?thesis by simp
next
  case False
  then show ?thesis using assms by (simp add: Max_Un max.commute)
qed

lemma Min_insert_Min:
  fixes A B :: "int set"
  assumes "finite A" "finite B" "A \<noteq> {}"
  shows "Min (insert (Min A) B) = Min (A \<union> B)"
proof (cases "B = {}")
  case True
  then show ?thesis by simp
next
  case False
  then show ?thesis using assms by (simp add: Min_Un min.commute)
qed

lemma fold_keepHigher:
  "fold keepHigher xs acc = r \<Longrightarrow>
   (r = None \<longleftrightarrow> xs = [] \<and> acc = None) \<and>
   (\<forall>e. r = Some e \<longrightarrow> e \<in> set xs \<union> set_option acc \<and>
        fst e = Max (fst ` (set xs \<union> set_option acc)))"
proof (induction xs arbitrary: acc r)
  case Nil
  then show ?case by (cases acc) auto
next
  case (Cons x xs)
  let ?a = "keepHigher x acc"
  from Cons.prems have f: "fold keepHigher xs ?a = r" by simp
  note ih = Cons.IH [OF f]
  have a: "?a \<noteq> None" by (cases acc) (simp_all add: keepHigher_def)
  then obtain y where y: "?a = Some y" by blast
  have ysub: "y \<in> insert x (set_option acc)"
    using y by (auto simp: keepHigher_def split: option.splits if_splits)
  have ymax: "fst y = Max (fst ` insert x (set_option acc))"
    using y by (cases acc) (auto simp: keepHigher_def max_def split: if_splits)
  have mx: "Max (fst ` (set xs \<union> set_option ?a)) = Max (fst ` (set (x # xs) \<union> set_option acc))"
  proof -
    have "Max (fst ` (set xs \<union> set_option ?a)) = Max (insert (fst y) (fst ` set xs))"
      using y by (simp add: image_Un Un_commute)
    also have "\<dots> = Max (insert (Max (fst ` insert x (set_option acc))) (fst ` set xs))"
      using ymax by simp
    also have "\<dots> = Max (fst ` insert x (set_option acc) \<union> fst ` set xs)"
      by (rule Max_insert_Max) (cases acc; simp)+
    also have "\<dots> = Max (fst ` (set (x # xs) \<union> set_option acc))"
      by (rule arg_cong [where f = Max]) auto
    finally show ?thesis .
  qed
  show ?case
  proof (intro conjI allI impI)
    show "(r = None) = (x # xs = [] \<and> acc = None)" using ih a by auto
  next
    fix e assume "r = Some e"
    with ih have "e \<in> set xs \<union> set_option ?a" by blast
    then show "e \<in> set (x # xs) \<union> set_option acc" using y ysub by auto
  next
    fix e assume "r = Some e"
    with ih have "fst e = Max (fst ` (set xs \<union> set_option ?a))" by blast
    then show "fst e = Max (fst ` (set (x # xs) \<union> set_option acc))" using mx by simp
  qed
qed

lemma fold_keepLower:
  "fold keepLower xs acc = r \<Longrightarrow>
   (r = None \<longleftrightarrow> xs = [] \<and> acc = None) \<and>
   (\<forall>e. r = Some e \<longrightarrow> e \<in> set xs \<union> set_option acc \<and>
        fst e = Min (fst ` (set xs \<union> set_option acc)))"
proof (induction xs arbitrary: acc r)
  case Nil
  then show ?case by (cases acc) auto
next
  case (Cons x xs)
  let ?a = "keepLower x acc"
  from Cons.prems have f: "fold keepLower xs ?a = r" by simp
  note ih = Cons.IH [OF f]
  have a: "?a \<noteq> None" by (cases acc) (simp_all add: keepLower_def)
  then obtain y where y: "?a = Some y" by blast
  have ysub: "y \<in> insert x (set_option acc)"
    using y by (auto simp: keepLower_def split: option.splits if_splits)
  have ymin: "fst y = Min (fst ` insert x (set_option acc))"
    using y by (cases acc) (auto simp: keepLower_def min_def split: if_splits)
  have mn: "Min (fst ` (set xs \<union> set_option ?a)) = Min (fst ` (set (x # xs) \<union> set_option acc))"
  proof -
    have "Min (fst ` (set xs \<union> set_option ?a)) = Min (insert (fst y) (fst ` set xs))"
      using y by (simp add: image_Un Un_commute)
    also have "\<dots> = Min (insert (Min (fst ` insert x (set_option acc))) (fst ` set xs))"
      using ymin by simp
    also have "\<dots> = Min (fst ` insert x (set_option acc) \<union> fst ` set xs)"
      by (rule Min_insert_Min) (cases acc; simp)+
    also have "\<dots> = Min (fst ` (set (x # xs) \<union> set_option acc))"
      by (rule arg_cong [where f = Min]) auto
    finally show ?thesis .
  qed
  show ?case
  proof (intro conjI allI impI)
    show "(r = None) = (x # xs = [] \<and> acc = None)" using ih a by auto
  next
    fix e assume "r = Some e"
    with ih have "e \<in> set xs \<union> set_option ?a" by blast
    then show "e \<in> set (x # xs) \<union> set_option acc" using y ysub by auto
  next
    fix e assume "r = Some e"
    with ih have "fst e = Min (fst ` (set xs \<union> set_option ?a))" by blast
    then show "fst e = Min (fst ` (set (x # xs) \<union> set_option acc))" using mn by simp
  qed
qed

lemma scanLowest_Min:
  assumes "tbl \<noteq> []"
  shows "\<exists>e \<in> set tbl. scanLowest tbl None = Some e \<and> fst e = Min (fst ` set tbl)"
proof -
  obtain r where r: "fold keepLower tbl None = r" by blast
  from fold_keepLower [OF r] assms obtain e where "r = Some e" by (cases r) auto
  with fold_keepLower [OF r] r show ?thesis by (auto simp: scanLowest_fold)
qed

lemma scanLower_Max:
  assumes far: "\<forall>e \<in> set tbl. \<not> withinTolerance pf p e"
  shows "if \<exists>e \<in> set tbl. beaten pf d p e
         then \<exists>e \<in> set tbl. beaten pf d p e \<and> scanLower pf d p tbl None = Inr (Some e) \<and>
                fst e = Max (fst ` {e \<in> set tbl. beaten pf d p e})
         else scanLower pf d p tbl None = Inr None"
proof -
  let ?B = "filter (beaten pf d p) tbl"
  obtain r where r: "fold keepHigher ?B None = r" by blast
  have s: "scanLower pf d p tbl None = Inr r" using scanLower_fold [OF far] r by simp
  show ?thesis
  proof (cases "\<exists>e \<in> set tbl. beaten pf d p e")
    case True
    then have "?B \<noteq> []" by (simp add: filter_empty_conv)
    with fold_keepHigher [OF r] obtain e where e: "r = Some e" by (cases r) auto
    with fold_keepHigher [OF r] have "e \<in> set ?B" "fst e = Max (fst ` set ?B)" by auto
    then show ?thesis using True s e by auto
  next
    case False
    then have "?B = []" by (simp add: filter_empty_conv)
    with r have "r = None" by simp
    then show ?thesis using False s by simp
  qed
qed

lemma lookupPoints_found:
  assumes "findCategory ld gender event = Some category" "category \<noteq> []"
    and "getEventData ld gender category event = Some eventData" "eventData \<noteq> []"
    and "parseFloat h input = Some p"
  shows "lookupPoints h ld gender event input isHandTimed =
       (case scanLower (parseFloat h) (isFieldEvent event)
               (adjustedPerformance ld event isHandTimed p) eventData None of
          Inl (pts, perf) \<Rightarrow>
            Some \<lparr> res_points = pts, res_exactMatch = True, res_closestPerformance = perf,
                   res_appliedOffset = appliedHandOffset ld event isHandTimed,
                   res_originalPerformance =
                     map_option (\<lambda>_. p) (appliedHandOffset ld event isHandTimed) \<rparr>
        | Inr lowerPointsEntry \<Rightarrow>
            (case (case lowerPointsEntry of
                     None \<Rightarrow> scanLowest eventData None
                   | Some l \<Rightarrow> Some l) of
               None \<Rightarrow> None
             | Some (pts, perf) \<Rightarrow>
                 Some \<lparr> res_points = pts, res_exactMatch = False,
                        res_closestPerformance = perf,
                        res_appliedOffset = appliedHandOffset ld event isHandTimed,
                        res_originalPerformance =
                          map_option (\<lambda>_. p) (appliedHandOffset ld event isHandTimed) \<rparr>))"
proof (cases "appliedHandOffset ld event isHandTimed")
  case None
  then have q: "adjustedPerformance ld event isHandTimed p = p"
    by (auto simp: appliedHandOffset_def adjustedPerformance_def split: if_splits option.splits)
  show ?thesis
    unfolding q None option.map using None assms
    by (auto simp: lookupPoints_def appliedHandOffset_def split: if_splits option.splits)
next
  case (Some off)
  then have o: "isHandTimed" "getHandTimingOffset ld event = Some off" "off \<noteq> 0"
    by (auto simp: appliedHandOffset_def split: if_splits option.splits)
  then have q: "adjustedPerformance ld event isHandTimed p = p + off"
    by (simp add: adjustedPerformance_def)
  show ?thesis
    unfolding q Some option.map using o assms by (simp add: lookupPoints_def)
qed

subsection \<open>Forward lookup between table entries\<close>

text \<open>
  Claim C1. When the table of the gender and event is found, the performance is numeric and
  not within 0.005 of any table entry, \<open>lookupPoints\<close> returns a result with
  \<open>exactMatch = false\<close> whose points are the highest points among the entries the
  performance beats (table performance strictly greater for a time event, strictly less for
  a distance event), or the lowest points of the whole table when it beats no entry. The
  performance compared is the one the table is searched with: the input, plus the
  hand-timing offset when hand timing is requested.
\<close>

theorem lookupPoints_between_entries:
  assumes category: "findCategory ld gender event = Some category" "category \<noteq> []"
    and table: "getEventData ld gender category event = Some eventData" "eventData \<noteq> []"
    and numeric: "parseFloat h input = Some p"
    and far: "\<forall>e \<in> set eventData.
                \<not> withinTolerance (parseFloat h) (adjustedPerformance ld event isHandTimed p) e"
  shows "\<exists>r. lookupPoints h ld gender event input isHandTimed = Some r \<and>
             \<not> res_exactMatch r \<and>
             (res_points r, res_closestPerformance r) \<in> set eventData \<and>
             res_points r =
               (if \<exists>e \<in> set eventData.
                     beaten (parseFloat h) (isFieldEvent event)
                       (adjustedPerformance ld event isHandTimed p) e
                then Max (fst ` {e \<in> set eventData.
                       beaten (parseFloat h) (isFieldEvent event)
                         (adjustedPerformance ld event isHandTimed p) e})
                else Min (fst ` set eventData))"
proof -
  let ?q = "adjustedPerformance ld event isHandTimed p"
  let ?d = "isFieldEvent event"
  let ?pf = "parseFloat h"
  note unfolded = lookupPoints_found [OF category table numeric, of isHandTimed]
  show ?thesis
  proof (cases "\<exists>e \<in> set eventData. beaten ?pf ?d ?q e")
    case True
    with scanLower_Max [OF far, of ?d] obtain e where
      e: "e \<in> set eventData" "scanLower ?pf ?d ?q eventData None = Inr (Some e)"
         "fst e = Max (fst ` {e \<in> set eventData. beaten ?pf ?d ?q e})"
      by auto
    obtain pts perf where pp: "e = (pts, perf)" by (cases e)
    show ?thesis using True e pp unfolded by simp
  next
    case False
    with scanLower_Max [OF far, of ?d] have
      s: "scanLower ?pf ?d ?q eventData None = Inr None" by simp
    from scanLowest_Min [OF table(2)] obtain e where
      e: "e \<in> set eventData" "scanLowest eventData None = Some e"
         "fst e = Min (fst ` set eventData)" by auto
    obtain pts perf where pp: "e = (pts, perf)" by (cases e)
    show ?thesis using False s e pp unfolded by simp
  qed
qed

theorem lookupPoints_between_entries_witness:
  "\<exists>r. lookupPoints exampleHost exampleLoaders ''men'' ''100m'' ''10.45'' False = Some r \<and>
        \<not> res_exactMatch r \<and> res_points r = 1200"
proof -
  have pf: "parseFloat exampleHost = map_of [(''10.50'', 21 / 2), (''10.40'', 52 / 5),
      (''10.45'', 209 / 20), (''10.26'', 513 / 50)]"
    by (simp add: exampleHost_def)
  have c: "findCategory exampleLoaders ''men'' ''100m'' = Some ''sprints''" "''sprints'' \<noteq> []"
    by (simp_all add: exampleLoaders_def)
  have t: "getEventData exampleLoaders ''men'' ''sprints'' ''100m''
             = Some [(1220, ''10.40''), (1200, ''10.50'')]"
      "[(1220 :: int, ''10.40''), (1200, ''10.50'')] \<noteq> []"
    by (simp_all add: exampleLoaders_def)
  have n: "parseFloat exampleHost ''10.45'' = Some (209 / 20)"
    by (simp add: pf)
  have far: "\<forall>e \<in> set [(1220 :: int, ''10.40''), (1200, ''10.50'')].
      \<not> withinTolerance (parseFloat exampleHost)
          (adjustedPerformance exampleLoaders ''100m'' False (209 / 20)) e"
    by (simp add: pf withinTolerance_def adjustedPerformance_def)
  have fe: "\<not> isFieldEvent ''100m''"
    by (simp add: isFieldEvent_def distanceEvents_def toUpperCase_def toUpperChar_def)
  have b: "{e \<in> set [(1220 :: int, ''10.40''), (1200, ''10.50'')].
             beaten (parseFloat exampleHost) (isFieldEvent ''100m'')
               (adjustedPerformance exampleLoaders ''100m'' False (209 / 20)) e}
           = {(1200, ''10.50'')}"
    by (auto simp: pf fe beaten_def adjustedPerformance_def)
  have ex: "\<exists>e \<in> set [(1220 :: int, ''10.40''), (1200, ''10.50'')].
             beaten (parseFloat exampleHost) (isFieldEvent ''100m'')
               (adjustedPerformance exampleLoaders ''100m'' False (209 / 20)) e"
    by (simp add: pf fe beaten_def adjustedPerformance_def)
  from lookupPoints_between_entries [OF c t n far] obtain r where
    r: "lookupPoints exampleHost exampleLoaders ''men'' ''100m'' ''10.45'' False = Some r"
       "\<not> res_exactMatch r"
       "res_points r =
          (if \<exists>e \<in> set [(1220 :: int, ''10.40''), (1200, ''10.50'')].
               beaten (parseFloat exampleHost) (isFieldEvent ''100m'')
                 (adjustedPerformance exampleLoaders ''100m'' False (209 / 20)) e
           then Max (fst ` {e \<in> set [(1220 :: int, ''10.40''), (1200, ''10.50'')].
                  beaten (parseFloat exampleHost) (isFieldEvent ''100m'')
                    (adjustedPerformance exampleLoaders ''100m'' False (209 / 20)) e})
           else Min (fst ` set [(1220 :: int, ''10.40''), (1200, ''10.50'')]))"
    by blast
  from r(3) have "res_points r = 1200" unfolding b using ex by simp
  with r(1,2) show ?thesis by blast
qed

subsection \<open>Reverse lookup\<close>

lemma scanExact_exact:
  "\<exists>e \<in> set tbl. fst e = t \<Longrightarrow>
   \<exists>e \<in> set tbl. fst e = t \<and> fst (scanExact t tbl acc) = Some e"
proof (induction tbl arbitrary: acc)
  case Nil
  then show ?case by simp
next
  case (Cons x tbl)
  obtain pts perf where x: "x = (pts, perf)" by (cases x)
  show ?case
  proof (cases "pts = t")
    case True
    then show ?thesis using x by simp
  next
    case False
    with Cons.prems x have "\<exists>e \<in> set tbl. fst e = t" by auto
    from Cons.IH [OF this] show ?thesis using False x by (cases acc) auto
  qed
qed

lemma scanExact_none:
  "\<forall>e \<in> set tbl. fst e \<noteq> t \<Longrightarrow>
   scanExact t tbl acc = (None, fold keepHigher (filter (\<lambda>e. fst e < t) tbl) acc)"
proof (induction tbl arbitrary: acc)
  case Nil
  show ?case by simp
next
  case (Cons x tbl)
  obtain pts perf where x: "x = (pts, perf)" by (cases x)
  have tl: "\<forall>e \<in> set tbl. fst e \<noteq> t" using Cons.prems by simp
  have ne: "pts \<noteq> t" using Cons.prems x by simp
  show ?case using Cons.IH [OF tl] x ne by (cases acc) (simp_all add: keepHigher_def)
qed

lemma selectedEntry_spec:
  assumes "tbl \<noteq> []"
  shows "\<exists>e \<in> set tbl. selectedEntry t tbl = Some e \<and>
           (fst (scanExact t tbl None) \<noteq> None) = (fst e = t) \<and>
           fst e = (if t \<in> fst ` set tbl then t
                    else if \<exists>x \<in> set tbl. fst x < t
                      then Max {x \<in> fst ` set tbl. x < t}
                      else Min (fst ` set tbl))"
proof (cases "\<exists>e \<in> set tbl. fst e = t")
  case True
  from scanExact_exact [OF True, of None] obtain e where
    e: "e \<in> set tbl" "fst e = t" "fst (scanExact t tbl None) = Some e" by auto
  then have "selectedEntry t tbl = Some e"
    by (cases "scanExact t tbl None") (simp add: selectedEntry_def)
  moreover have "t \<in> fst ` set tbl" using e by force
  ultimately show ?thesis using e by auto
next
  case False
  then have no: "\<forall>e \<in> set tbl. fst e \<noteq> t" by simp
  then have notin: "t \<notin> fst ` set tbl" by auto
  let ?L = "filter (\<lambda>e. fst e < t) tbl"
  obtain r where r: "fold keepHigher ?L None = r" by blast
  have s: "scanExact t tbl None = (None, r)" using scanExact_none [OF no] r by simp
  have img: "fst ` set ?L = {x \<in> fst ` set tbl. x < t}" by auto
  show ?thesis
  proof (cases "\<exists>x \<in> set tbl. fst x < t")
    case True
    then have "?L \<noteq> []" by (simp add: filter_empty_conv)
    with fold_keepHigher [OF r] obtain e where e: "r = Some e" by (cases r) auto
    with fold_keepHigher [OF r] have in_L: "e \<in> set ?L" and mx: "fst e = Max (fst ` set ?L)"
      by auto
    have "selectedEntry t tbl = Some e" using s e by (simp add: selectedEntry_def)
    moreover have "fst e \<noteq> t" using in_L by auto
    ultimately show ?thesis using True notin in_L mx s unfolding img by auto
  next
    case none_lower: False
    then have "?L = []" by (simp add: filter_empty_conv)
    with r have rn: "r = None" by simp
    from scanLowest_Min [OF assms] obtain e where
      e: "e \<in> set tbl" "scanLowest tbl None = Some e" "fst e = Min (fst ` set tbl)" by auto
    have "selectedEntry t tbl = Some e" using s rn e by (simp add: selectedEntry_def)
    moreover have "fst e \<noteq> t" using e(1) no by auto
    ultimately show ?thesis using none_lower notin e s rn by auto
  qed
qed

lemma lookupPerformance_found:
  assumes "findCategory ld gender event = Some category" "category \<noteq> []"
    and "getEventData ld gender category event = Some eventData" "eventData \<noteq> []"
  shows "lookupPerformance h ld gender event score isHandTimed =
       (case selectedEntry (Math_round score) eventData of
          None \<Rightarrow> None
        | Some e \<Rightarrow>
            Some \<lparr> rev_performance = fst (handTimingAdjust h ld event isHandTimed (snd e)),
                   rev_exactMatch = (fst (scanExact (Math_round score) eventData None) \<noteq> None),
                   rev_points = fst e,
                   rev_appliedOffset =
                     fst (snd (handTimingAdjust h ld event isHandTimed (snd e))),
                   rev_originalPerformance =
                     snd (snd (handTimingAdjust h ld event isHandTimed (snd e))) \<rparr>)"
  using assms
  by (auto simp: lookupPerformance_def selectedEntry_def Let_def
           split: prod.splits option.splits)

text \<open>
  Claim C2. When the table of the gender and event is found, \<open>lookupPerformance\<close> rounds
  the requested points to the nearest whole number and returns the entry whose points are
  that number if the table has one (with \<open>exactMatch = true\<close>), else the entry with the
  highest points strictly below it, else (the target being below every entry) the entry with
  the lowest points of the table, both with \<open>exactMatch = false\<close>. The performance returned is
  that entry's, passed through the hand-timing block.
\<close>

theorem lookupPerformance_selects:
  assumes category: "findCategory ld gender event = Some category" "category \<noteq> []"
    and table: "getEventData ld gender category event = Some eventData" "eventData \<noteq> []"
  shows "\<exists>r e. lookupPerformance h ld gender event score isHandTimed = Some r \<and>
           e \<in> set eventData \<and> rev_points r = fst e \<and>
           (rev_performance r, rev_appliedOffset r, rev_originalPerformance r) =
              handTimingAdjust h ld event isHandTimed (snd e) \<and>
           \<bar>real_of_int (Math_round score) - score\<bar> \<le> 1 / 2 \<and>
           rev_exactMatch r = (fst e = Math_round score) \<and>
           fst e =
             (if Math_round score \<in> fst ` set eventData then Math_round score
              else if \<exists>x \<in> set eventData. fst x < Math_round score
                then Max {x \<in> fst ` set eventData. x < Math_round score}
                else Min (fst ` set eventData))"
proof -
  have near: "\<bar>real_of_int (Math_round score) - score\<bar> \<le> 1 / 2"
    unfolding Math_round_def by linarith
  from selectedEntry_spec [OF table(2), of "Math_round score"] obtain e where
    e: "e \<in> set eventData" "selectedEntry (Math_round score) eventData = Some e"
       "(fst (scanExact (Math_round score) eventData None) \<noteq> None) = (fst e = Math_round score)"
       "fst e = (if Math_round score \<in> fst ` set eventData then Math_round score
                 else if \<exists>x \<in> set eventData. fst x < Math_round score
                   then Max {x \<in> fst ` set eventData. x < Math_round score}
                   else Min (fst ` set eventData))"
    by blast
  let ?r = "\<lparr> rev_performance = fst (handTimingAdjust h ld event isHandTimed (snd e)),
              rev_exactMatch = (fst (scanExact (Math_round score) eventData None) \<noteq> None),
              rev_points = fst e,
              rev_appliedOffset = fst (snd (handTimingAdjust h ld event isHandTimed (snd e))),
              rev_originalPerformance =
                snd (snd (handTimingAdjust h ld event isHandTimed (snd e))) \<rparr>"
  have "lookupPerformance h ld gender event score isHandTimed = Some ?r"
    using lookupPerformance_found [OF category table] e(2) by simp
  moreover have "rev_exactMatch ?r = (fst e = Math_round score)" using e(3) by simp
  ultimately show ?thesis using e(1,4) near
    by (intro exI [of _ ?r] exI [of _ e]) simp
qed

theorem lookupPerformance_selects_witness:
  "\<exists>r. lookupPerformance exampleHost exampleLoaders ''men'' ''100m'' 1210 False = Some r \<and>
        rev_performance r = ''10.50'' \<and> rev_points r = 1200 \<and> \<not> rev_exactMatch r"
proof -
  have c: "findCategory exampleLoaders ''men'' ''100m'' = Some ''sprints''" "''sprints'' \<noteq> []"
    by (simp_all add: exampleLoaders_def)
  have t: "getEventData exampleLoaders ''men'' ''sprints'' ''100m''
             = Some [(1220, ''10.40''), (1200, ''10.50'')]"
      "[(1220 :: int, ''10.40''), (1200, ''10.50'')] \<noteq> []"
    by (simp_all add: exampleLoaders_def)
  have rd: "Math_round 1210 = 1210" by (simp add: Math_round_def)
  have below: "{x \<in> fst ` set [(1220 :: int, ''10.40''), (1200, ''10.50'')]. x < 1210} = {1200}"
    by auto
  from lookupPerformance_selects [OF c t, of exampleHost 1210 False] obtain r e where
    r: "lookupPerformance exampleHost exampleLoaders ''men'' ''100m'' 1210 False = Some r"
       "e \<in> set [(1220 :: int, ''10.40''), (1200, ''10.50'')]" "rev_points r = fst e"
       "(rev_performance r, rev_appliedOffset r, rev_originalPerformance r) =
          handTimingAdjust exampleHost exampleLoaders ''100m'' False (snd e)"
       "rev_exactMatch r = (fst e = Math_round 1210)"
       "fst e =
         (if Math_round 1210 \<in> fst ` set [(1220 :: int, ''10.40''), (1200, ''10.50'')]
          then Math_round 1210
          else if \<exists>x \<in> set [(1220 :: int, ''10.40''), (1200, ''10.50'')]. fst x < Math_round 1210
            then Max {x \<in> fst ` set [(1220 :: int, ''10.40''), (1200, ''10.50'')].
                       x < Math_round 1210}
            else Min (fst ` set [(1220 :: int, ''10.40''), (1200, ''10.50'')]))"
    by blast
  from r(6) have f: "fst e = 1200" unfolding rd below by simp
  with r(2) have s: "snd e = ''10.50''" by auto
  from r(4) s have "rev_performance r = ''10.50''" by (simp add: handTimingAdjust_def)
  with r(1,3,5) f rd show ?thesis by auto
qed

subsection \<open>Hand timing in the two directions\<close>

text \<open>
  Claim C3. With hand timing requested for an event that has a (truthy) offset,
  \<open>lookupPoints\<close> searches the table with the numeric performance plus the offset: its
  result is the result of the plain lookup of any performance that parses to that sum, with
  \<open>appliedOffset\<close> set to the offset and \<open>originalPerformance\<close> to the unadjusted number.
  \<open>lookupPerformance\<close> finds the same entry as without hand timing, returns its performance
  minus the offset (formatted to two decimals), \<open>appliedOffset\<close> set to the negated offset and
  \<open>originalPerformance\<close> to the table performance before the adjustment.
\<close>

theorem hand_timing_offset_sign_inverted:
  assumes category: "findCategory ld gender event = Some category" "category \<noteq> []"
    and table: "getEventData ld gender category event = Some eventData" "eventData \<noteq> []"
    and offset: "getHandTimingOffset ld event = Some offset" "offset \<noteq> 0"
    and numeric: "parseFloat h input = Some p"
  shows "(\<exists>r. lookupPoints h ld gender event input True = Some r \<and>
              res_appliedOffset r = Some offset \<and>
              res_originalPerformance r = Some p \<and>
              (\<forall>input'. parseFloat h input' = Some (p + offset) \<longrightarrow>
                 lookupPoints h ld gender event input' False =
                   Some (r \<lparr> res_appliedOffset := None, res_originalPerformance := None \<rparr>)))
       \<and> (\<exists>r r0. lookupPerformance h ld gender event score False = Some r0 \<and>
              lookupPerformance h ld gender event score True = Some r \<and>
              rev_appliedOffset r0 = None \<and> rev_originalPerformance r0 = None \<and>
              rev_appliedOffset r = Some (- offset) \<and>
              rev_originalPerformance r = Some (rev_performance r0) \<and>
              rev_performance r =
                toFixed h (map_option (\<lambda>perfNum. perfNum - offset)
                             (parseFloat h (rev_performance r0))) 2 \<and>
              rev_points r = rev_points r0 \<and> rev_exactMatch r = rev_exactMatch r0)"
proof (rule conjI)
  have ao: "appliedHandOffset ld event True = Some offset"
       "appliedHandOffset ld event False = None"
    using offset by (simp_all add: appliedHandOffset_def)
  have ap: "adjustedPerformance ld event True p = p + offset"
       "\<And>q. adjustedPerformance ld event False q = q"
    using offset by (simp_all add: adjustedPerformance_def)
  let ?scan = "scanLower (parseFloat h) (isFieldEvent event) (p + offset) eventData None"
  note hand = lookupPoints_found [OF category table numeric, of True, unfolded ao ap option.map]
  have plain: "lookupPoints h ld gender event input' False =
       (case ?scan of
          Inl (pts, perf) \<Rightarrow>
            Some \<lparr> res_points = pts, res_exactMatch = True, res_closestPerformance = perf,
                   res_appliedOffset = None, res_originalPerformance = None \<rparr>
        | Inr lowerPointsEntry \<Rightarrow>
            (case (case lowerPointsEntry of
                     None \<Rightarrow> scanLowest eventData None
                   | Some l \<Rightarrow> Some l) of
               None \<Rightarrow> None
             | Some (pts, perf) \<Rightarrow>
                 Some \<lparr> res_points = pts, res_exactMatch = False,
                        res_closestPerformance = perf,
                        res_appliedOffset = None, res_originalPerformance = None \<rparr>))"
    if "parseFloat h input' = Some (p + offset)" for input'
    using lookupPoints_found [OF category table that, of False, unfolded ao ap option.map] .
  from scanLowest_Min [OF table(2)] obtain low where low: "scanLowest eventData None = Some low"
    by auto
  show "\<exists>r. lookupPoints h ld gender event input True = Some r \<and>
              res_appliedOffset r = Some offset \<and>
              res_originalPerformance r = Some p \<and>
              (\<forall>input'. parseFloat h input' = Some (p + offset) \<longrightarrow>
                 lookupPoints h ld gender event input' False =
                   Some (r \<lparr> res_appliedOffset := None, res_originalPerformance := None \<rparr>))"
  proof (cases ?scan)
    case (Inl e)
    obtain pts perf where "e = (pts, perf)" by (cases e)
    with Inl show ?thesis using hand plain by simp
  next
    case (Inr lower)
    obtain pts perf where
      "(case lower of None \<Rightarrow> scanLowest eventData None | Some l \<Rightarrow> Some l) = Some (pts, perf)"
      using low by (cases lower) (auto intro: prod.exhaust)
    with Inr show ?thesis using hand plain by simp
  qed
next
  from selectedEntry_spec [OF table(2), of "Math_round score"] obtain e where
    e: "selectedEntry (Math_round score) eventData = Some e" by blast
  have adjT: "handTimingAdjust h ld event True (snd e) =
      (toFixed h (map_option (\<lambda>perfNum. perfNum - offset) (parseFloat h (snd e))) 2,
       Some (- offset), Some (snd e))"
    using offset by (simp add: handTimingAdjust_def)
  have adjF: "handTimingAdjust h ld event False (snd e) = (snd e, None, None)"
    by (simp add: handTimingAdjust_def)
  show "\<exists>r r0. lookupPerformance h ld gender event score False = Some r0 \<and>
              lookupPerformance h ld gender event score True = Some r \<and>
              rev_appliedOffset r0 = None \<and> rev_originalPerformance r0 = None \<and>
              rev_appliedOffset r = Some (- offset) \<and>
              rev_originalPerformance r = Some (rev_performance r0) \<and>
              rev_performance r =
                toFixed h (map_option (\<lambda>perfNum. perfNum - offset)
                             (parseFloat h (rev_performance r0))) 2 \<and>
              rev_points r = rev_points r0 \<and> rev_exactMatch r = rev_exactMatch r0"
    using lookupPerformance_found [OF category table, of h score True]
          lookupPerformance_found [OF category table, of h score False] e adjT adjF
    by simp
qed

theorem hand_timing_offset_sign_inverted_witness:
  "(\<exists>r. lookupPoints exampleHost exampleLoaders ''men'' ''100m'' ''10.26'' True = Some r \<and>
        res_appliedOffset r = Some (24 / 100) \<and> res_originalPerformance r = Some (513 / 50) \<and>
        lookupPoints exampleHost exampleLoaders ''men'' ''100m'' ''10.50'' False =
          Some (r \<lparr> res_appliedOffset := None, res_originalPerformance := None \<rparr>)) \<and>
   (\<exists>r r0. lookupPerformance exampleHost exampleLoaders ''men'' ''100m'' 1200 False = Some r0 \<and>
        lookupPerformance exampleHost exampleLoaders ''men'' ''100m'' 1200 True = Some r \<and>
        rev_appliedOffset r = Some (- (24 / 100)) \<and>
        rev_originalPerformance r = Some (rev_performance r0))"
proof -
  have c: "findCategory exampleLoaders ''men'' ''100m'' = Some ''sprints''" "''sprints'' \<noteq> []"
    by (simp_all add: exampleLoaders_def)
  have t: "getEventData exampleLoaders ''men'' ''sprints'' ''100m''
             = Some [(1220, ''10.40''), (1200, ''10.50'')]"
      "[(1220 :: int, ''10.40''), (1200, ''10.50'')] \<noteq> []"
    by (simp_all add: exampleLoaders_def)
  have off: "getHandTimingOffset exampleLoaders ''100m'' = Some (24 / 100)" "(24 / 100 :: real) \<noteq> 0"
    by (simp_all add: exampleLoaders_def)
  have n: "parseFloat exampleHost ''10.26'' = Some (513 / 50)"
    by (simp add: exampleHost_def)
  have n': "parseFloat exampleHost ''10.50'' = Some (513 / 50 + 24 / 100)"
    by (simp add: exampleHost_def)
  note inst = hand_timing_offset_sign_inverted [OF c t off n, of 1200]
  from inst n' show ?thesis by blast
qed

section \<open>Properties of the pace formatter and the pace engine\<close>

subsection \<open>Formatting never fails\<close>

lemma formatSubMinuteTime_nonempty: "formatSubMinuteTime h seconds \<noteq> []"
  by (simp add: formatSubMinuteTime_def Let_def)

text \<open>
  Claim C9. \<open>formatPaceTime\<close> and \<open>formatTotalTime\<close> return the empty string for \<open>null\<close>,
  \<open>undefined\<close>, \<open>NaN\<close> and every negative number, and a non-empty string for every
  non-negative finite number, whatever the host prints for a number.
\<close>

theorem format_time_total:
  "formatPaceTime h Null = [] \<and> formatTotalTime h Null = [] \<and>
   formatPaceTime h Undefined = [] \<and> formatTotalTime h Undefined = [] \<and>
   formatPaceTime h NaN = [] \<and> formatTotalTime h NaN = [] \<and>
   (if x < 0
    then formatPaceTime h (Num x) = [] \<and> formatTotalTime h (Num x) = []
    else formatPaceTime h (Num x) \<noteq> [] \<and> formatTotalTime h (Num x) \<noteq> [])"
  by (simp add: formatPaceTime_def formatTotalTime_def Let_def formatSubMinuteTime_nonempty)

theorem format_time_total_witness:
  "formatPaceTime exampleHost (Num (- 1)) = [] \<and> formatTotalTime exampleHost (Num 75) \<noteq> [] \<and>
   formatPaceTime exampleHost NaN = []"
  using format_time_total [of exampleHost "- 1"] format_time_total [of exampleHost 75]
  by simp

subsection \<open>Pace and speed round trips\<close>

lemma paceTargetUnit_cases:
  "paceTargetUnit u = ''miles'' \<or> paceTargetUnit u = ''m'' \<or> paceTargetUnit u = ''km''"
  by (simp add: paceTargetUnit_def)

lemma convertDistance_from_metres_pos:
  assumes "0 < d"
  shows "0 < convertDistance (Some d) ''metres'' (paceTargetUnit u)"
  using paceTargetUnit_cases [of u] assms
  by (auto simp: convertDistance_def normalizeUnit_def toMetres_def orOne_def Let_def)

lemma paceAdjustedDistance_pos: "0 < x \<Longrightarrow> 0 < paceAdjustedDistance u x"
  by (simp add: paceAdjustedDistance_def)

lemma speed_factor_pos: "0 < orOne (map_of speedConversions u)"
  by (simp add: speedConversions_def orOne_def)

lemma speed_factor_inverse:
  "orOne (map_of speedConversions u) * orOne (map_of inverseSpeedConversions u) = 1"
  by (simp add: speedConversions_def inverseSpeedConversions_def orOne_def)

text \<open>
  Claim C4. For a positive distance and time and each of the pace units \<open>km\<close>, \<open>mile\<close>,
  \<open>400m\<close>, \<open>200m\<close> and \<open>100m\<close>, the total time computed from the pace that \<open>calculatePace\<close>
  returns is the time again; likewise for \<open>calculateSpeed\<close> and
  \<open>calculateTotalTimeFromSpeed\<close> and each of the speed units \<open>ms\<close>, \<open>kmh\<close>, \<open>mph\<close>, \<open>fts\<close>
  and \<open>yds\<close>. Numbers being exact here, the two sides are equal. With a non-positive
  distance or second argument each of the four functions throws.
\<close>

theorem pace_speed_round_trip:
  assumes "paceUnit \<in> set [''km'', ''mile'', ''400m'', ''200m'', ''100m'']"
    and "speedUnit \<in> set [''ms'', ''kmh'', ''mph'', ''fts'', ''yds'']"
  shows
  "(if 0 < d \<and> 0 < t
    then (\<exists>pace. calculatePace d t paceUnit = Inr pace \<and>
                  calculateTotalTime d pace paceUnit = Inr t) \<and>
         (\<exists>speed. calculateSpeed d t speedUnit = Inr speed \<and>
                  calculateTotalTimeFromSpeed d speed speedUnit = Inr t)
    else (\<exists>msg. calculatePace d t paceUnit = Inl (Error msg)) \<and>
         (\<exists>msg. calculateTotalTime d t paceUnit = Inl (Error msg)) \<and>
         (\<exists>msg. calculateSpeed d t speedUnit = Inl (Error msg)) \<and>
         (\<exists>msg. calculateTotalTimeFromSpeed d t speedUnit = Inl (Error msg)))"
proof (cases "0 < d \<and> 0 < t")
  case True
  then have d: "0 < d" and t: "0 < t" by simp_all
  let ?a = "paceAdjustedDistance paceUnit
              (convertDistance (Some d) ''metres'' (paceTargetUnit paceUnit))"
  have a: "0 < ?a"
    by (rule paceAdjustedDistance_pos) (rule convertDistance_from_metres_pos [OF d])
  have pace: "calculatePace d t paceUnit = Inr (t / ?a)"
    using d t by (simp add: calculatePace_def Let_def)
  have "0 < t / ?a" using a t by simp
  then have total: "calculateTotalTime d (t / ?a) paceUnit = Inr t"
    using d a by (simp add: calculateTotalTime_def Let_def)
  let ?c = "orOne (map_of speedConversions speedUnit)"
  let ?c' = "orOne (map_of inverseSpeedConversions speedUnit)"
  have c: "0 < ?c" by (rule speed_factor_pos)
  have speed: "calculateSpeed d t speedUnit = Inr (d / t * ?c)"
    using d t by (simp add: calculateSpeed_def Let_def)
  have sp: "0 < d / t * ?c" using d t c by simp
  have sback: "calculateTotalTimeFromSpeed d (d / t * ?c) speedUnit = Inr t"
    using d sp by (simp add: calculateTotalTimeFromSpeed_def Let_def speed_factor_inverse)
  show ?thesis using True pace total speed sback by simp
next
  case False
  then have "d \<le> 0 \<or> t \<le> 0" by auto
  then show ?thesis
    using False
    by (auto simp: calculatePace_def calculateTotalTime_def calculateSpeed_def
                   calculateTotalTimeFromSpeed_def)
qed

theorem pace_speed_round_trip_witness:
  "(\<exists>pace. calculatePace 5000 1500 ''km'' = Inr pace \<and>
            calculateTotalTime 5000 pace ''km'' = Inr 1500) \<and>
   (\<exists>speed. calculateSpeed 5000 1500 ''mph'' = Inr speed \<and>
            calculateTotalTimeFromSpeed 5000 speed ''mph'' = Inr 1500) \<and>
   (\<exists>msg. calculatePace 0 1500 ''km'' = Inl (Error msg))"
proof -
  have units: "''km'' \<in> set [''km'', ''mile'', ''400m'', ''200m'', ''100m'']"
      "''mph'' \<in> set [''ms'', ''kmh'', ''mph'', ''fts'', ''yds'']"
    by simp_all
  show ?thesis
    using pace_speed_round_trip [OF units, of 5000 1500]
          pace_speed_round_trip [OF units, of 0 1500]
    by simp
qed

subsection \<open>Rounding to the nearest double\<close>















subsection \<open>Split tables: the passes of the row loops\<close>

lemma smartSplitsLoop_stop:
  "\<not> dless cur d \<Longrightarrow> smartSplitsLoop dh d pace i info cur prev t splits = Some splits"
  by (subst smartSplitsLoop.simps) simp

lemma smartSplitsLoop_step:
  "dless cur d \<Longrightarrow>
   \<exists>row t'. smartSplitsLoop dh d pace i info cur prev t splits =
     smartSplitsLoop dh d pace i info (advanceDistance d i cur) (advanceDistance d i cur) t'
       (splits @ [row])"
  by (subst smartSplitsLoop.simps) (auto simp: Let_def advanceDistance_def)



lemma smartSplitsLoop_passes:
  "passCount fuel d i cur = Some n \<Longrightarrow>
   \<exists>rows. smartSplitsLoop dh d pace i info cur prev t splits = Some (splits @ rows) \<and>
          length rows = n"
proof (induction fuel arbitrary: cur prev t splits n)
  case 0
  then show ?case by (auto simp: smartSplitsLoop_stop split: if_splits)
next
  case (Suc fuel)
  show ?case
  proof (cases "dless cur d")
    case False
    with Suc.prems show ?thesis by (auto simp: smartSplitsLoop_stop)
  next
    case True
    with Suc.prems obtain m where
      m: "passCount fuel d i (advanceDistance d i cur) = Some m" "n = Suc m" by auto
    from smartSplitsLoop_step [OF True, of dh pace i info prev t splits] obtain row t' where
      s: "smartSplitsLoop dh d pace i info cur prev t splits =
          smartSplitsLoop dh d pace i info (advanceDistance d i cur) (advanceDistance d i cur) t'
            (splits @ [row])" by blast
    from Suc.IH [OF m(1), of "advanceDistance d i cur" t' "splits @ [row]"] obtain rows where
      "smartSplitsLoop dh d pace i info (advanceDistance d i cur) (advanceDistance d i cur) t'
         (splits @ [row]) = Some ((splits @ [row]) @ rows)" "length rows = m" by blast
    with s m(2) have
      "smartSplitsLoop dh d pace i info cur prev t splits = Some (splits @ (row # rows)) \<and>
       length (row # rows) = n" by simp
    then show ?thesis by blast
  qed
qed




subsection \<open>Split tables: the loop that grows the interval\<close>













subsection \<open>Split tables: runs on given distances\<close>

lemmas round64_eval =
  round64_def clampedExponent_def exponentUp.simps exponentDown.simps pow2_def
  roundHalfEven_def Let_def

lemma passCount_numeral:
  "passCount (numeral n) d i cur =
     (if dless cur d
      then map_option Suc (passCount (pred_numeral n) d i (advanceDistance d i cur))
      else Some 0)"
  by (simp add: numeral_eq_Suc)



lemma passCount_ten: "passCount 10 (Finite 100000) (Finite 10000) (Finite 0) = Some 10"
  by (simp add: passCount_numeral advanceDistance_def round64_eval)

lemma growInterval_example:
  "growInterval (Finite 100000) (Finite 1) (Finite 1) v =
     Some (Finite 10000, Finite 10000,
           fmul (fmul (fmul (fmul v (Finite 10)) (Finite 10)) (Finite 10)) (Finite 10))"
  by (subst growInterval.simps, simp add: dgeq_def round64_eval)+

lemma growInterval_kept:
  "growInterval (Finite (199 / 2)) (Finite 1) (Finite 1) v = Some (Finite 1, Finite 1, v)"
  by (subst growInterval.simps) (simp add: dgeq_def round64_eval)

lemma round64_eleven_tenths:
  "round64 (11 / 10) = Finite (2476979795053773 / 2251799813685248)"
  by (simp add: round64_eval)

lemma growInterval_kept_110:
  "growInterval (Finite 110) (Finite 1) (Finite (2476979795053773 / 2251799813685248)) v =
     Some (Finite 1, Finite (2476979795053773 / 2251799813685248), v)"
  by (subst growInterval.simps) (simp add: dgeq_def round64_eval)

lemma passCount_101:
  "passCount 101 (Finite 110) (Finite (2476979795053773 / 2251799813685248)) (Finite 0) =
     Some 101"
  by (simp add: passCount_numeral advanceDistance_def round64_eval)

lemma calculateSmartSplits_collapses_example:
  "\<exists>rows. calculateSmartSplits dh (Finite 100000) pace cfg (Finite 1) info = Some rows \<and>
          length rows = 10"
  using smartSplitsLoop_passes [OF passCount_ten, of dh pace _ "Finite 0" "Finite 0" "[]"]
  by (simp add: calculateSmartSplits_def growInterval_example)

lemma passCount_hundred: "passCount 100 (Finite (199 / 2)) (Finite 1) (Finite 0) = Some 100"
  by (simp add: passCount_numeral advanceDistance_def round64_eval)

lemma calculateSmartSplits_101_rows:
  "\<exists>rows. calculateSmartSplits dh (Finite 110) pace cfg (round64 (11 / 10)) info = Some rows \<and>
          length rows = 101"
  using smartSplitsLoop_passes [OF passCount_101, of dh pace _ "Finite 0" "Finite 0" "[]"]
  by (simp add: calculateSmartSplits_def round64_eleven_tenths growInterval_kept_110)


text \<open>
  Claim C7. The source documents \<open>calculateSmartSplits\<close> as growing the interval ``until
  number of splits < 100''; the loop bounds \<open>floor(distance / interval)\<close>, the number of whole
  intervals, while the table also has a row for the last, partial interval. A distance of
  99.5 m with a 1 m interval has 99 whole intervals, so the interval is kept, and the table
  has 100 rows: the rows at 1, 2, ..., 99 m and the row at 99.5 m. Every sum of this run is
  a double, so no sum is rounded. Where sums are rounded the table can be longer still: 110 m
  with the interval 1.1 m has 101 rows (\<open>calculateSmartSplits_101_rows\<close>), the quotient
  \<open>110 / 1.1\<close> being just below 100 and the hundredth sum just below 110. The example of the
  documentation, 1 m over 100,000 m, does give 10 rows
  (\<open>calculateSmartSplits_collapses_example\<close>).
\<close>

theorem calculateSmartSplits_hundred_rows:
  "\<exists>rows. calculateSmartSplits dh (Finite (199 / 2)) pace cfg (Finite 1) info = Some rows \<and>
          length rows = 100"
  using smartSplitsLoop_passes [OF passCount_hundred, of dh pace _ "Finite 0" "Finite 0" "[]"]
  by (simp add: calculateSmartSplits_def growInterval_kept)






section \<open>Properties of the collapsible panels\<close>

text \<open>
  Claim C8. Both panels of the pace calculator page go through \<open>makeCollapsible\<close>, under
  distinct keys, and the Equivalent Paces panel starts collapsed when nothing is stored. The
  Split Times panel does not: \<open>displaySplits\<close>, under the comment ``start collapsed by
  default'', passes \<open>false\<close> as the default, so with nothing stored under its key the panel
  starts expanded.
\<close>

theorem splitTimesPanel_starts_expanded:
  "contentCollapsed (equivalentPacesPanel Map.empty) \<and>
   \<not> contentCollapsed (splitTimesPanel Map.empty) \<and>
   ariaExpanded (splitTimesPanel Map.empty) = ''true''"
  by (simp add: equivalentPacesPanel_def splitTimesPanel_def makeCollapsible_def)

section \<open>Properties of the scoring table extractor\<close>

subsection \<open>De-duplication and sorting\<close>

lemma map_of_mapSet: "map_of (mapSet m k v) = (map_of m)(k \<mapsto> v)"
  by (induction m k v rule: mapSet.induct) auto

lemma keys_mapSet: "fst ` set (mapSet m k v) = insert k (fst ` set m)"
  by (induction m k v rule: mapSet.induct) auto

lemma distinct_mapSet: "distinct (map fst m) \<Longrightarrow> distinct (map fst (mapSet m k v))"
proof (induction m k v rule: mapSet.induct)
  case (1 key v)
  show ?case by simp
next
  case (2 k old rest key v)
  then show ?case using keys_mapSet [of rest key v] by (auto simp: image_iff)
qed

lemma jsLess_replaced:
  "jsLess (pointsOf kept) (pointsOf x) \<Longrightarrow> \<not> jsLess (pointsOf kept) (pointsOf y) \<Longrightarrow>
   \<not> jsLess (pointsOf x) (pointsOf y)"
  by (cases "pointsOf kept"; cases "pointsOf x"; cases "pointsOf y") auto

lemma jsLess_irrefl: "\<not> jsLess a a"
  by (cases a) auto

text \<open>The invariant of the de-duplication loop after the elements \<open>xs\<close>, of either shape.\<close>

lemma fold_dedupeStep_invariant:
  "distinct (map fst (fold dedupeStep xs [])) \<and>
   dom (map_of (fold dedupeStep xs [])) = performanceOf ` set xs \<and>
   (\<forall>k v. map_of (fold dedupeStep xs []) k = Some v \<longrightarrow>
      performanceOf v = k \<and> v \<in> set xs \<and>
      (\<forall>x \<in> set xs. performanceOf x = k \<longrightarrow> \<not> jsLess (pointsOf v) (pointsOf x)))"
proof (induction xs rule: rev_induct)
  case Nil
  show ?case by simp
next
  case (snoc x xs)
  let ?m = "fold dedupeStep xs []"
  from snoc have d: "distinct (map fst ?m)"
    and keys: "dom (map_of ?m) = performanceOf ` set xs"
    and vals: "\<And>k v. map_of ?m k = Some v \<Longrightarrow>
      performanceOf v = k \<and> v \<in> set xs \<and>
      (\<forall>y \<in> set xs. performanceOf y = k \<longrightarrow> \<not> jsLess (pointsOf v) (pointsOf y))"
    by blast+
  have step: "fold dedupeStep (xs @ [x]) [] = dedupeStep x ?m" by simp
  have dom_new:
    "insert (performanceOf x) (dom (map_of ?m)) = performanceOf ` set (xs @ [x])"
    using keys by auto
  have replaced: ?case
    if new: "dedupeStep x ?m = mapSet ?m (performanceOf x) x"
      and best: "\<forall>y \<in> set xs. performanceOf y = performanceOf x \<longrightarrow>
                   \<not> jsLess (pointsOf x) (pointsOf y)"
    unfolding step new
  proof (intro conjI allI impI)
    show "distinct (map fst (mapSet ?m (performanceOf x) x))" using d by (rule distinct_mapSet)
  next
    show "dom (map_of (mapSet ?m (performanceOf x) x)) = performanceOf ` set (xs @ [x])"
      using dom_new by (simp add: map_of_mapSet)
  next
    fix key v assume a: "map_of (mapSet ?m (performanceOf x) x) key = Some v"
    show "performanceOf v = key" using a vals by (auto simp: map_of_mapSet split: if_splits)
  next
    fix key v assume a: "map_of (mapSet ?m (performanceOf x) x) key = Some v"
    show "v \<in> set (xs @ [x])" using a vals by (auto simp: map_of_mapSet split: if_splits)
  next
    fix key v assume a: "map_of (mapSet ?m (performanceOf x) x) key = Some v"
    show "\<forall>y \<in> set (xs @ [x]). performanceOf y = key \<longrightarrow> \<not> jsLess (pointsOf v) (pointsOf y)"
    proof (cases "key = performanceOf x")
      case True
      then have "v = x" using a by (simp add: map_of_mapSet)
      then show ?thesis using True best by (auto simp: jsLess_irrefl)
    next
      case False
      then have "map_of ?m key = Some v" using a by (simp add: map_of_mapSet)
      from vals [OF this] False show ?thesis by auto
    qed
  qed
  show ?case
  proof (cases "map_of ?m (performanceOf x)")
    case None
    then have new: "dedupeStep x ?m = mapSet ?m (performanceOf x) x"
      by (simp add: dedupeStep_def)
    have "\<forall>y \<in> set xs. performanceOf y \<noteq> performanceOf x"
      using None keys by (metis domIff imageI)
    then show ?thesis using replaced [OF new] by blast
  next
    case (Some kept)
    note k = vals [OF Some]
    show ?thesis
    proof (cases "jsLess (pointsOf kept) (pointsOf x)")
      case True
      then have new: "dedupeStep x ?m = mapSet ?m (performanceOf x) x"
        using Some by (simp add: dedupeStep_def)
      have "\<forall>y \<in> set xs. performanceOf y = performanceOf x \<longrightarrow>
              \<not> jsLess (pointsOf x) (pointsOf y)"
        using k True jsLess_replaced by blast
      then show ?thesis by (rule replaced [OF new])
    next
      case False
      then have same: "dedupeStep x ?m = ?m" using Some by (simp add: dedupeStep_def)
      have "performanceOf x \<in> dom (map_of ?m)" using Some by blast
      then have dom_same: "dom (map_of ?m) = performanceOf ` set (xs @ [x])"
        using keys by auto
      show ?thesis
        unfolding step same
      proof (intro conjI allI impI)
        show "distinct (map fst ?m)" by (rule d)
      next
        show "dom (map_of ?m) = performanceOf ` set (xs @ [x])" by (rule dom_same)
      next
        fix key v assume a: "map_of ?m key = Some v"
        show "performanceOf v = key" using vals [OF a] by simp
      next
        fix key v assume a: "map_of ?m key = Some v"
        show "v \<in> set (xs @ [x])" using vals [OF a] by simp
      next
        fix key v assume a: "map_of ?m key = Some v"
        show "\<forall>y \<in> set (xs @ [x]). performanceOf y = key \<longrightarrow>
                \<not> jsLess (pointsOf v) (pointsOf y)"
        proof (cases "key = performanceOf x")
          case True
          then have "v = kept" using a Some by simp
          then show ?thesis using True k False by auto
        next
          case False
          from vals [OF a] False show ?thesis by auto
        qed
      qed
    qed
  qed
qed

lemma set_insertSorted: "set (insertSorted x ys) = insert x (set ys)"
  by (induction ys) auto

lemma set_sortEntries: "set (sortEntries xs) = set xs"
  by (induction xs) (simp_all add: sortEntries_def set_insertSorted)

lemma distinct_map_insertSorted:
  "distinct (map g (insertSorted x ys)) = (g x \<notin> g ` set ys \<and> distinct (map g ys))"
  by (induction ys) (auto simp: set_insertSorted)

lemma distinct_map_sortEntries: "distinct (map g (sortEntries xs)) = distinct (map g xs)"
  by (induction xs)
     (simp_all add: sortEntries_def distinct_map_insertSorted
        set_sortEntries [unfolded sortEntries_def])

lemma sortOrder_objects:
  "isObject a \<Longrightarrow> isObject b \<Longrightarrow> sortOrder a b = recordedPoints b - recordedPoints a"
  by (cases a; cases b) (simp_all add: sortOrder_def)

lemma descending_insertSorted:
  assumes "isObject x" "\<forall>y \<in> set ys. isObject y"
    and "sorted_wrt (\<lambda>a b. recordedPoints a \<ge> recordedPoints b) ys"
  shows "sorted_wrt (\<lambda>a b. recordedPoints a \<ge> recordedPoints b) (insertSorted x ys)"
  using assms(2,3)
proof (induction ys)
  case Nil
  show ?case by simp
next
  case (Cons y ys)
  have o: "sortOrder x y = recordedPoints y - recordedPoints x"
    using assms(1) Cons.prems(1) by (simp add: sortOrder_objects)
  show ?case
  proof (cases "sortOrder x y \<le> 0")
    case True
    then show ?thesis using Cons.prems o by auto
  next
    case False
    then show ?thesis using Cons o by (auto simp: set_insertSorted)
  qed
qed

lemma descending_sortEntries:
  "\<forall>x \<in> set xs. isObject x \<Longrightarrow>
   sorted_wrt (\<lambda>a b. recordedPoints a \<ge> recordedPoints b) (sortEntries xs)"
proof (induction xs)
  case Nil
  show ?case by (simp add: sortEntries_def)
next
  case (Cons x xs)
  then have "sorted_wrt (\<lambda>a b. recordedPoints a \<ge> recordedPoints b) (sortEntries xs)" by simp
  moreover have "\<forall>y \<in> set (sortEntries xs). isObject y"
    using Cons.prems by (simp add: set_sortEntries)
  moreover have "isObject x" using Cons.prems by simp
  ultimately have
    "sorted_wrt (\<lambda>a b. recordedPoints a \<ge> recordedPoints b) (insertSorted x (sortEntries xs))"
    by (intro descending_insertSorted) simp_all
  then show ?case by (simp add: sortEntries_def)
qed

text \<open>
  On a list of objects only, as an extraction without merge builds it, the cleaned list is
  what the claim describes.
\<close>

lemma cleanEntries_of_objects:
  assumes objects: "\<forall>x \<in> set entries. isObject x"
  shows "distinct (map recordedPerformance (cleanEntries entries)) \<and>
     sorted_wrt (\<lambda>a b. recordedPoints a \<ge> recordedPoints b) (cleanEntries entries) \<and>
     set (cleanEntries entries) \<subseteq> set entries \<and>
     (\<forall>e \<in> set entries. \<exists>k \<in> set (cleanEntries entries).
        recordedPerformance k = recordedPerformance e \<and>
        recordedPoints k =
          Max (recordedPoints ` {x \<in> set entries.
                 recordedPerformance x = recordedPerformance e}))"
proof -
  let ?m = "fold dedupeStep entries []"
  note inv = fold_dedupeStep_invariant [of entries]
  from inv have d: "distinct (map fst ?m)" by blast
  from inv have keys: "dom (map_of ?m) = performanceOf ` set entries" by blast
  from inv have vals: "\<And>k v. map_of ?m k = Some v \<Longrightarrow>
      performanceOf v = k \<and> v \<in> set entries \<and>
      (\<forall>x \<in> set entries. performanceOf x = k \<longrightarrow> \<not> jsLess (pointsOf v) (pointsOf x))"
    by blast
  have perf: "performanceOf x = Some (recordedPerformance x)" if "isObject x" for x
    using that by (cases x) simp_all
  have pts: "pointsOf x = Some (recordedPoints x)" if "isObject x" for x
    using that by (cases x) simp_all
  have pair: "performanceOf v = k \<and> v \<in> set entries" if "(k, v) \<in> set ?m" for k v
    using vals [of k v] that d by simp
  have set_clean: "set (cleanEntries entries) = snd ` set ?m"
    by (simp add: cleanEntries_def set_sortEntries)
  have sub: "set (cleanEntries entries) \<subseteq> set entries"
    unfolding set_clean using pair by auto
  have keys_some: "map (\<lambda>p. Some (recordedPerformance (snd p))) ?m = map fst ?m"
  proof (rule map_cong [OF refl])
    fix p assume p: "p \<in> set ?m"
    obtain k v where kv: "p = (k, v)" by (cases p)
    from pair [of k v] p kv have "performanceOf v = k" "v \<in> set entries" by simp_all
    with objects perf [of v] kv show "Some (recordedPerformance (snd p)) = fst p" by simp
  qed
  have "distinct (map (\<lambda>p. Some (recordedPerformance (snd p))) ?m)"
    unfolding keys_some by (rule d)
  then have "distinct (map (Some \<circ> recordedPerformance) (map snd ?m))"
    by (simp add: comp_def)
  then have dm: "distinct (map recordedPerformance (map snd ?m))"
    by (simp only: map_map [symmetric] distinct_map)
  show ?thesis
  proof (intro conjI ballI)
    show "distinct (map recordedPerformance (cleanEntries entries))"
      using dm by (simp only: cleanEntries_def distinct_map_sortEntries)
  next
    have "\<forall>x \<in> set (map snd ?m). isObject x" using sub objects set_clean by auto
    then show "sorted_wrt (\<lambda>a b. recordedPoints a \<ge> recordedPoints b) (cleanEntries entries)"
      unfolding cleanEntries_def by (rule descending_sortEntries)
  next
    show "set (cleanEntries entries) \<subseteq> set entries" by (rule sub)
  next
    fix e assume e: "e \<in> set entries"
    then have "performanceOf e \<in> dom (map_of ?m)" using keys by simp
    then obtain v where v: "map_of ?m (performanceOf e) = Some v" by blast
    note props = vals [OF v]
    have inm: "(performanceOf e, v) \<in> set ?m" using v by (rule map_of_SomeD)
    then have vin: "v \<in> set (cleanEntries entries)" unfolding set_clean by force
    have ov: "isObject v" using props objects by simp
    have oe: "isObject e" using e objects by simp
    have same: "recordedPerformance v = recordedPerformance e"
      using props perf [OF ov] perf [OF oe] by simp
    let ?S = "recordedPoints ` {x \<in> set entries. recordedPerformance x = recordedPerformance e}"
    have "Max ?S = recordedPoints v"
    proof (rule Max_eqI)
      show "finite ?S" by simp
    next
      fix y assume "y \<in> ?S"
      then obtain x where x: "x \<in> set entries" "recordedPerformance x = recordedPerformance e"
        "y = recordedPoints x" by auto
      have ox: "isObject x" using x(1) objects by simp
      have "performanceOf x = performanceOf e" using perf [OF ox] perf [OF oe] x(2) by simp
      with props x(1) have "\<not> jsLess (pointsOf v) (pointsOf x)" by simp
      then show "y \<le> recordedPoints v" using pts [OF ov] pts [OF ox] x(3) by simp
    next
      show "recordedPoints v \<in> ?S" using props same by auto
    qed
    then show "\<exists>k \<in> set (cleanEntries entries).
        recordedPerformance k = recordedPerformance e \<and> recordedPoints k = Max ?S"
      using vin same by (intro bexI [of _ v]) simp_all
  qed
qed

lemma tableAt_cleanAndSortData:
  "tableAt (cleanAndSortData tbls) gender category eventName =
     map_option cleanEntries (tableAt tbls gender category eventName)"
  by (simp add: tableAt_def cleanAndSortData_def split: option.splits)

lemma tableAt_loadAndMerge:
  assumes "existingData gender = Some categories" "categories category = Some evs"
    "evs eventName = Some entries"
  shows "tableAt (loadAndMerge (Some existingData) tbls) gender category eventName =
     Some ((case tableAt tbls gender category eventName of None \<Rightarrow> [] | Some l \<Rightarrow> l)
           @ map (\<lambda>(points, performance). Array points performance) entries)"
  using assms by (simp add: tableAt_def loadAndMerge_def Let_def split: option.splits)

text \<open>
  Claim C5. The claim holds of a list of \<open>{performance, points}\<close> objects
  (\<open>cleanEntries_of_objects\<close>), but not of every list \<open>cleanAndSortData\<close> is run on. With
  \<open>--merge\<close> the rows of the existing output file are pushed onto the lists as
  \<open>[points, performance]\<close> arrays, ``duplicates will be removed in cleanAndSortData''; there
  every array has the key \<open>undefined\<close> and no \<open>points\<close>. Merging the rows (950, 10.00) and
  (1200, 9.00) into a list that holds 10.00 with 900 points leaves 10.00 twice, with 900 and
  with 950 points, and drops the row of 9.00; the array that is kept is written out as
  \<open>[undefined, undefined]\<close>.
\<close>

theorem cleanAndSortData_merged_rows:
  "\<exists>cleaned.
     tableAt
       (tablesAtExport
          (Some [''men'' \<mapsto> [''sprints'' \<mapsto> [''100m'' \<mapsto> [(950, ''10.00''), (1200, ''9.00'')]]]])
          True
          [''men'' \<mapsto> [''sprints'' \<mapsto> [''100m'' \<mapsto> [Object ''10.00'' 900]]]])
       ''men'' ''sprints'' ''100m'' = Some cleaned \<and>
     set cleaned = {Object ''10.00'' 900, Array 950 ''10.00''} \<and>
     \<not> distinct (map recordedPerformance cleaned) \<and>
     ''9.00'' \<notin> recordedPerformance ` set cleaned \<and>
     compactEntry (Array 950 ''10.00'') = (None, None)"
proof -
  let ?existing = "[''men'' \<mapsto> [''sprints'' \<mapsto> [''100m'' \<mapsto> [(950 :: int, ''10.00''), (1200, ''9.00'')]]]]"
  let ?tbls = "[''men'' \<mapsto> [''sprints'' \<mapsto> [''100m'' \<mapsto> [Object ''10.00'' 900]]]]"
  have merged: "tableAt (loadAndMerge (Some ?existing) ?tbls) ''men'' ''sprints'' ''100m'' =
      Some [Object ''10.00'' 900, Array 950 ''10.00'', Array 1200 ''9.00'']"
    by (subst tableAt_loadAndMerge [where categories = "[''sprints'' \<mapsto> [''100m'' \<mapsto> [(950, ''10.00''), (1200, ''9.00'')]]]"
          and evs = "[''100m'' \<mapsto> [(950, ''10.00''), (1200, ''9.00'')]]"
          and entries = "[(950, ''10.00''), (1200, ''9.00'')]"])
       (simp_all add: tableAt_def)
  have clean: "cleanEntries [Object ''10.00'' 900, Array 950 ''10.00'', Array 1200 ''9.00''] =
      [Object ''10.00'' 900, Array 950 ''10.00'']"
    by (simp add: cleanEntries_def dedupeStep_def sortEntries_def sortOrder_def)
  have "tableAt (tablesAtExport (Some ?existing) True ?tbls) ''men'' ''sprints'' ''100m'' =
      Some [Object ''10.00'' 900, Array 950 ''10.00'']"
    by (simp add: tablesAtExport_def tableAt_cleanAndSortData merged clean)
  then show ?thesis by (simp add: compactEntry_def)
qed

subsection \<open>Rows of a cross-referenced table\<close>

lemma mapToHeaders_map:
  "mapToHeaders eventHeaders performanceValues i acc =
     acc @ map (\<lambda>j. if j < length performanceValues
                     then parsePerformanceValue (performanceValues ! j) else None)
               [i..<length eventHeaders]"
proof (induction eventHeaders performanceValues i acc rule: mapToHeaders.induct)
  case (1 eventHeaders performanceValues i acc)
  show ?case
  proof (cases "i < length eventHeaders")
    case True
    then have "[i..<length eventHeaders] = i # [Suc i..<length eventHeaders]"
      by (simp add: upt_conv_Cons)
    then show ?thesis using 1 [OF True] True by (subst mapToHeaders.simps) simp
  next
    case False
    then show ?thesis by (subst mapToHeaders.simps) simp
  qed
qed

lemma many1_all:
  "s \<noteq> [] \<Longrightarrow> ([] \<in> set (many1 c s)) = (\<forall>x \<in> set s. inClass c x)"
proof (induction s)
  case Nil
  then show ?case by simp
next
  case (Cons x xs)
  show ?case
  proof (cases "xs = []")
    case True
    then show ?thesis by simp
  next
    case False
    from Cons.IH [OF False] False show ?thesis by auto
  qed
qed

lemma parsePerformanceValue_spec:
  "parsePerformanceValue v =
     (if v \<noteq> [] \<and> v \<noteq> ''-'' \<and> (\<forall>c \<in> set v. c \<in> set ''0123456789:.'') then Some v else None)"
proof (cases "v = []")
  case True
  then show ?thesis by (simp add: parsePerformanceValue_def)
next
  case False
  have cls: "inClass (Or Digit (Or (Lit (CHR '':'')) (Lit (CHR ''.'')))) c
               = (c \<in> set ''0123456789:.'')" for c
    by auto
  have dash: "\<not> (\<forall>c \<in> set ''-''. c \<in> set ''0123456789:.'')" by simp
  show ?thesis
    using False dash many1_all [OF False, of "Or Digit (Or (Lit (CHR '':'')) (Lit (CHR ''.'')))"]
    unfolding cls
    by (auto simp: parsePerformanceValue_def regexTest_def performanceChars_def)
qed

lemma digit_value:
  assumes "inClass Digit c"
  shows "\<exists>v. digitValue c = Some v \<and> v < 10"
proof -
  from assms consider "c = CHR ''0''" | "c = CHR ''1''" | "c = CHR ''2''" | "c = CHR ''3''"
    | "c = CHR ''4''" | "c = CHR ''5''" | "c = CHR ''6''" | "c = CHR ''7''"
    | "c = CHR ''8''" | "c = CHR ''9''"
    by auto
  then show ?thesis by cases (simp_all add: digitValue_def)
qed

lemma stops_at_non_digit:
  "\<not> inClass Digit c \<Longrightarrow> (case digitValue c of None \<Rightarrow> True | Some v \<Rightarrow> \<not> v < 10)"
  by (simp add: digitValue_def)

lemma readDigits_decimal:
  assumes "\<forall>c \<in> set ds. inClass Digit c" "rest = [] \<or> \<not> inClass Digit (hd rest)"
  shows "readDigits 10 (ds @ rest) (Some a) =
           Some (foldl (\<lambda>a c. a * 10 + (case digitValue c of None \<Rightarrow> 0 | Some v \<Rightarrow> v)) a ds)"
  using assms(1)
proof (induction ds arbitrary: a)
  case Nil
  show ?case
  proof (cases rest)
    case Nil
    then show ?thesis by simp
  next
    case (Cons c cs)
    with assms(2) have "\<not> inClass Digit c" by simp
    from stops_at_non_digit [OF this] Cons show ?thesis
      by (simp split: option.splits)
  qed
next
  case (Cons d ds)
  then have "inClass Digit d" by simp
  from digit_value [OF this] obtain v where v: "digitValue d = Some v" "v < 10" by blast
  from Cons have "\<forall>c \<in> set ds. inClass Digit c" by simp
  from Cons.IH [OF this] v show ?case by simp
qed

lemma parseInt_leading_digits:
  assumes digits: "ds \<noteq> []" "\<forall>c \<in> set ds. inClass Digit c"
    and tail: "rest = [] \<or> \<not> inClass Digit (hd rest)"
    and nohex: "\<not> (ds = ''0'' \<and> rest \<noteq> [] \<and> hd rest \<in> set ''xX'')"
  shows "parseInt (ds @ rest) = Some (int (decimalValue ds))"
proof -
  obtain d ds' where ds: "ds = d # ds'" using digits(1) by (cases ds) auto
  have d: "inClass Digit d" using digits(2) ds by simp
  then have nospace: "\<not> isSpace d" by (auto simp: isSpace_def)
  have nosign: "d \<noteq> CHR ''-''" "d \<noteq> CHR ''+''" using d by auto
  have nothex: "\<not> startsWith (ds @ rest) ''0x''" "\<not> startsWith (ds @ rest) ''0X''"
  proof -
    show "\<not> startsWith (ds @ rest) ''0x''"
    proof (cases ds')
      case Nil
      then show ?thesis using ds nohex by (cases rest) auto
    next
      case (Cons e es)
      then have "inClass Digit e" using digits(2) ds by simp
      then have "e \<noteq> CHR ''x''" by auto
      then show ?thesis using ds Cons by simp
    qed
    show "\<not> startsWith (ds @ rest) ''0X''"
    proof (cases ds')
      case Nil
      then show ?thesis using ds nohex by (cases rest) auto
    next
      case (Cons e es)
      then have "inClass Digit e" using digits(2) ds by simp
      then have "e \<noteq> CHR ''X''" by auto
      then show ?thesis using ds Cons by simp
    qed
  qed
  from digit_value [OF d] obtain v where v: "digitValue d = Some v" "v < 10" by blast
  have rest': "\<forall>c \<in> set ds'. inClass Digit c" using digits(2) ds by simp
  have "readDigits 10 (ds @ rest) None = readDigits 10 (ds' @ rest) (Some v)"
    using ds v by simp
  also have "\<dots> = Some (foldl (\<lambda>a c. a * 10 +
       (case digitValue c of None \<Rightarrow> 0 | Some v \<Rightarrow> v)) v ds')"
    by (rule readDigits_decimal [OF rest' tail])
  also have "\<dots> = Some (decimalValue ds)" using ds v by (simp add: decimalValue_def)
  finally have r: "readDigits 10 (ds @ rest) None = Some (decimalValue ds)" .
  have dw: "dropWhile isSpace (ds @ rest) = ds @ rest" using ds nospace by simp
  have sg: "\<not> startsWith (ds @ rest) ''-''" "\<not> startsWith (ds @ rest) ''+''"
    using ds nosign by simp_all
  show ?thesis
    unfolding parseInt_def dw Let_def using sg nothex r by simp
qed

lemma parseCrossReferencedRow_tokens:
  assumes "pointsPosition = ''left'' \<or> pointsPosition = ''right''"
  shows "parseCrossReferencedRow line eventHeaders pointsPosition =
     (let allTokens = rowTokens line;
          pointsToken = (if pointsPosition = ''left'' then hd allTokens else last allTokens);
          others = (if pointsPosition = ''left'' then tl allTokens else butlast allTokens)
      in if allTokens = [] then None
         else
           (case parseInt pointsToken of
              None \<Rightarrow> None
            | Some n \<Rightarrow>
                if 0 \<le> n \<and> n \<le> 1500
                then Some \<lparr> row_points = Some n,
                            performances =
                              map (\<lambda>i. if i < length others
                                        then parsePerformanceValue (others ! i) else None)
                                  [0..<length eventHeaders],
                            events = eventHeaders \<rparr>
                else None))"
proof (cases "rowTokens line = []")
  case True
  then show ?thesis by (simp add: parseCrossReferencedRow_def)
next
  case False
  have first: "rowTokens line ! 0 = hd (rowTokens line)"
    using False by (simp add: hd_conv_nth)
  have final: "rowTokens line ! (length (rowTokens line) - 1) = last (rowTokens line)"
    using False by (simp add: last_conv_nth)
  have front: "take (length (rowTokens line) - 1) (rowTokens line) = butlast (rowTokens line)"
    by (simp add: butlast_conv_take)
  have after: "drop 1 (rowTokens line) = tl (rowTokens line)"
    by (simp add: drop_Suc)
  have lr: "''left'' \<noteq> ''right''" by simp
  from assms show ?thesis
  proof
    assume "pointsPosition = ''left''"
    then show ?thesis
      using False
      by (auto simp: parseCrossReferencedRow_def Let_def first after mapToHeaders_map
               simp del: One_nat_def split: option.splits)
  next
    assume "pointsPosition = ''right''"
    then show ?thesis
      using False lr
      by (auto simp: parseCrossReferencedRow_def Let_def final front mapToHeaders_map
               simp del: One_nat_def split: option.splits)
  qed
qed

text \<open>
  Claim C6, amended. \<open>parseCrossReferencedRow\<close> takes the first token (\<open>pointsPosition\<close>
  \<open>left\<close>) or the last token (\<open>right\<close>) of the line's tokens as the points value. The value is
  what \<open>parseInt\<close> reads from it: the integer written by its leading decimal digits,
  whatever follows them being ignored. It must exist and lie in [0, 1500], or the row is
  discarded. The remaining tokens are mapped by position onto the event headers: a header
  gets its token if that consists of digits, colons and dots only, and \<open>null\<close> if it is a
  dash, anything else, or missing.
\<close>

theorem parseCrossReferencedRow_points_and_performances:
  "(pointsPosition = ''left'' \<or> pointsPosition = ''right'' \<longrightarrow>
      parseCrossReferencedRow line eventHeaders pointsPosition =
        (let allTokens = rowTokens line;
             pointsToken = (if pointsPosition = ''left'' then hd allTokens else last allTokens);
             others = (if pointsPosition = ''left'' then tl allTokens else butlast allTokens)
         in if allTokens = [] then None
            else
              (case parseInt pointsToken of
                 None \<Rightarrow> None
               | Some n \<Rightarrow>
                   if 0 \<le> n \<and> n \<le> 1500
                   then Some \<lparr> row_points = Some n,
                               performances =
                                 map (\<lambda>i. if i < length others
                                           then parsePerformanceValue (others ! i) else None)
                                     [0..<length eventHeaders],
                               events = eventHeaders \<rparr>
                   else None))) \<and>
   (ds \<noteq> [] \<and> (\<forall>c \<in> set ds. inClass Digit c) \<and> (rest = [] \<or> \<not> inClass Digit (hd rest)) \<and>
    \<not> (ds = ''0'' \<and> rest \<noteq> [] \<and> hd rest \<in> set ''xX'') \<longrightarrow>
      parseInt (ds @ rest) = Some (int (decimalValue ds))) \<and>
   parsePerformanceValue v =
     (if v \<noteq> [] \<and> v \<noteq> ''-'' \<and> (\<forall>c \<in> set v. c \<in> set ''0123456789:.'') then Some v else None)"
  using parseCrossReferencedRow_tokens [of pointsPosition line eventHeaders]
        parseInt_leading_digits [of ds rest]
        parsePerformanceValue_spec [of v]
  by blast

theorem parseCrossReferencedRow_points_and_performances_witness:
  "parseCrossReferencedRow ''1200 10.50 - 21.34'' [''100m'', ''200m'', ''400m''] ''left'' =
     Some \<lparr> row_points = Some 1200,
            performances = [Some ''10.50'', None, Some ''21.34''],
            events = [''100m'', ''200m'', ''400m''] \<rparr> \<and>
   parseInt ''1200.5'' = Some 1200 \<and>
   parsePerformanceValue ''-'' = None"
proof -
  note inst =
    parseCrossReferencedRow_points_and_performances
      [of "''left''" "''1200 10.50 - 21.34''" "[''100m'', ''200m'', ''400m'']"
          "''1200''" "''.5''" "''-''"]
  have toks: "rowTokens ''1200 10.50 - 21.34'' = [''1200'', ''10.50'', ''-'', ''21.34'']"
    by code_simp
  have pts: "parseInt ''1200'' = Some 1200" by code_simp
  have v1: "parsePerformanceValue ''10.50'' = Some ''10.50''" by code_simp
  have v2: "parsePerformanceValue ''21.34'' = Some ''21.34''" by code_simp
  have dec: "decimalValue ''1200'' = 1200" by code_simp
  have idx: "[0..<length [''100m'', ''200m'', ''400m'']] = [0, 1, 2]" by code_simp
  from inst have
    "parseInt (''1200'' @ ''.5'') = Some (int (decimalValue ''1200''))" by simp
  then have a: "parseInt ''1200.5'' = Some 1200" using dec by simp
  from inst have b: "parsePerformanceValue ''-'' = None" by simp
  from inst have
    "parseCrossReferencedRow ''1200 10.50 - 21.34'' [''100m'', ''200m'', ''400m''] ''left'' =
       Some \<lparr> row_points = Some 1200,
              performances = [Some ''10.50'', None, Some ''21.34''],
              events = [''100m'', ''200m'', ''400m''] \<rparr>"
    unfolding toks idx using pts v1 v2 b by (simp add: Let_def)
  with a b show ?thesis by simp
qed

text \<open>
  The claim as stated fails on a fractional points token: \<open>1200.5\<close> is no integer, yet the
  row is kept, with 1200 points.
\<close>

theorem parseCrossReferencedRow_fractional_points_counterexample:
  "hd (rowTokens ''1200.5 10.50'') = ''1200.5'' \<and>
   parseCrossReferencedRow ''1200.5 10.50'' [''100m''] ''left'' =
     Some \<lparr> row_points = Some 1200, performances = [Some ''10.50''], events = [''100m''] \<rparr>"
  by code_simp

end
